theory Spec2Isabelle
  imports Complex_Main
begin

section \<open>Python values used by \<open>userbot_forwarder.py\<close>\<close>

text \<open>
  Python strings are modelled as HOL strings, one \<open>char\<close> per code point below 256.
  On these code points \<open>str.strip\<close> removes the characters for which \<open>str.isspace\<close>
  holds, and the regular expression class \<open>\d\<close> is the ten ASCII digits.
  Time stamps (\<open>time.time()\<close>) are exact reals: floating-point rounding is not modelled.
\<close>

definition isspace :: "char \<Rightarrow> bool" where
  "isspace c =
     (let n = (of_char c :: nat)
      in (9 \<le> n \<and> n \<le> 13) \<or> (28 \<le> n \<and> n \<le> 32) \<or> n = 133 \<or> n = 160)"

definition isdigit :: "char \<Rightarrow> bool" where
  "isdigit c = (let n = (of_char c :: nat) in 48 \<le> n \<and> n \<le> 57)"

definition strip :: "string \<Rightarrow> string" where
  "strip s = rev (dropWhile isspace (rev (dropWhile isspace s)))"

fun join :: "string \<Rightarrow> string list \<Rightarrow> string" where
  "join sep [] = []"
| "join sep [x] = x"
| "join sep (x # y # ys) = x @ sep @ join sep (y # ys)"

text \<open>\<open>str(n)\<close> for an integer: its decimal digits, with a sign when negative.\<close>

fun str_nat :: "nat \<Rightarrow> string" where
  "str_nat n =
     (if n < 10 then [''0123456789'' ! n]
      else str_nat (n div 10) @ [''0123456789'' ! (n mod 10)])"

declare str_nat.simps [simp del]

definition str :: "int \<Rightarrow> string" where
  "str i = (if i < 0 then CHR ''-'' # str_nat (nat (- i)) else str_nat (nat i))"

text \<open>Truth value of an attribute that is absent, \<open>None\<close> or a string.\<close>

definition truthy :: "string option \<Rightarrow> bool" where
  "truthy v = (case v of None \<Rightarrow> False | Some s \<Rightarrow> s \<noteq> [])"

section \<open>Configuration and data model\<close>

text \<open>
  The module globals read by the forwarder. \<open>strftime\<close> stands for
  \<open>datetime.fromtimestamp(t).strftime('%Y-%m-%d %H:%M:%S')\<close>, a library function that
  is taken as a parameter.
\<close>

record config =
  DUPLICATE_IGNORE_DURATION :: int
  DUPLICATE_CHECK_ENABLED :: bool
  strftime :: "real \<Rightarrow> string"

text \<open>An entry of \<open>forwarded_today\<close>: \<open>{'name': ..., 'time': ...}\<close>.\<close>

record daily_entry =
  de_name :: string
  de_time :: string

text \<open>
  An entry of \<open>message_tracking['ignored']\<close> or \<open>message_tracking['collected']\<close>.
  The code reads the time stamp with \<open>data.get('timestamp', 0)\<close>, so an entry read from
  the file may lack it; only ignored entries carry a reason.
\<close>

record tracking_entry =
  te_name :: string
  te_timestamp :: "real option"
  te_reason :: "string option"
  te_time_formatted :: string

record tracking =
  ignored :: "string \<rightharpoonup> tracking_entry"
  collected :: "string \<rightharpoonup> tracking_entry"

text \<open>The JSON document of \<open>daily_messages.json\<close>; both keys are read with \<open>.get\<close>.\<close>

record daily_data =
  dd_date :: "string option"
  dd_forwarded_users :: "(string \<rightharpoonup> daily_entry) option"

text \<open>
  A file on disk: absent (\<open>os.path.exists\<close> is false), present but \<open>open\<close> or
  \<open>json.load\<close> raises, or present with a document that parses.
\<close>

datatype 'a json_file = Missing | Corrupt | Parsed 'a

text \<open>
  What \<open>open(path, 'w')\<close> followed by \<open>json.dump\<close> does: it succeeds, or \<open>open\<close>
  raises and the file is left as it was, or \<open>json.dump\<close> raises after \<open>open\<close> has
  truncated the file, which leaves a document that no longer parses.
\<close>

datatype write_result = Written | OpenFailed | DumpFailed

definition write_file :: "write_result \<Rightarrow> 'a \<Rightarrow> 'a json_file \<Rightarrow> 'a json_file" where
  "write_file w data f =
     (case w of Written \<Rightarrow> Parsed data | OpenFailed \<Rightarrow> f | DumpFailed \<Rightarrow> Corrupt)"

text \<open>
  The state of a \<open>UserbotForwarder\<close> together with its two files. \<open>bot_entity\<close> is
  true when the cached handle of the bot is set.
\<close>

record forwarder =
  bot_entity :: bool
  forwarded_today :: "string \<rightharpoonup> daily_entry"
  message_tracking :: tracking
  daily_messages_file :: "daily_data json_file"
  message_tracking_file :: "tracking json_file"

section \<open>Tracking store\<close>

definition load_daily_messages ::
  "string \<Rightarrow> daily_data json_file \<Rightarrow> (string \<rightharpoonup> daily_entry)" where
  "load_daily_messages today f =
     (case f of
        Missing \<Rightarrow> Map.empty
      | Corrupt \<Rightarrow> Map.empty
      | Parsed data \<Rightarrow>
          if dd_date data = Some today
          then (case dd_forwarded_users data of None \<Rightarrow> Map.empty | Some users \<Rightarrow> users)
          else Map.empty)"

definition save_daily_messages :: "string \<Rightarrow> write_result \<Rightarrow> forwarder \<Rightarrow> forwarder" where
  "save_daily_messages today w st =
     (let data = \<lparr>dd_date = Some today, dd_forwarded_users = Some (forwarded_today st)\<rparr>
      in st\<lparr>daily_messages_file := write_file w data (daily_messages_file st)\<rparr>)"

definition load_message_tracking :: "tracking json_file \<Rightarrow> tracking" where
  "load_message_tracking f =
     (case f of
        Missing \<Rightarrow> \<lparr>ignored = Map.empty, collected = Map.empty\<rparr>
      | Corrupt \<Rightarrow> \<lparr>ignored = Map.empty, collected = Map.empty\<rparr>
      | Parsed data \<Rightarrow> data)"

definition save_message_tracking :: "write_result \<Rightarrow> forwarder \<Rightarrow> forwarder" where
  "save_message_tracking w st =
     st\<lparr>message_tracking_file :=
          write_file w (message_tracking st) (message_tracking_file st)\<rparr>"

text \<open>\<open>data.get('timestamp', 0)\<close>\<close>

definition get_timestamp :: "tracking_entry \<Rightarrow> real" where
  "get_timestamp data = (case te_timestamp data of None \<Rightarrow> 0 | Some t \<Rightarrow> t)"

text \<open>
  The loop \<open>for user_id, data in d.items(): if data.get('timestamp', 0) > cutoff_time:
  cleaned[user_id] = data\<close>: the new dictionary holds the entries that pass the test.
\<close>

definition keep_recent ::
  "real \<Rightarrow> (string \<rightharpoonup> tracking_entry) \<Rightarrow> (string \<rightharpoonup> tracking_entry)" where
  "keep_recent cutoff_time d =
     (\<lambda>user_id. case d user_id of
        None \<Rightarrow> None
      | Some data \<Rightarrow> if get_timestamp data > cutoff_time then Some data else None)"

definition cleanup_old_tracking_data ::
  "config \<Rightarrow> real \<Rightarrow> write_result \<Rightarrow> forwarder \<Rightarrow> forwarder" where
  "cleanup_old_tracking_data cfg current_time w st =
     (if \<not> DUPLICATE_CHECK_ENABLED cfg then st
      else
        let cutoff_time = current_time - real_of_int (DUPLICATE_IGNORE_DURATION cfg);
            cleaned_ignored = keep_recent cutoff_time (ignored (message_tracking st));
            cleaned_collected = keep_recent cutoff_time (collected (message_tracking st))
        in save_message_tracking w
             (st\<lparr>message_tracking :=
                   \<lparr>ignored = cleaned_ignored, collected = cleaned_collected\<rparr>\<rparr>))"

definition has_forwarded_today :: "int \<Rightarrow> forwarder \<Rightarrow> bool" where
  "has_forwarded_today user_id st = (str user_id \<in> dom (forwarded_today st))"

definition mark_as_forwarded ::
  "config \<Rightarrow> real \<Rightarrow> string \<Rightarrow> write_result \<Rightarrow> int \<Rightarrow> string \<Rightarrow> forwarder \<Rightarrow> forwarder" where
  "mark_as_forwarded cfg now today w user_id sender_name st =
     save_daily_messages today w
       (st\<lparr>forwarded_today :=
             (forwarded_today st)(str user_id \<mapsto>
                \<lparr>de_name = sender_name, de_time = strftime cfg now\<rparr>)\<rparr>)"

definition track_ignored_message ::
  "config \<Rightarrow> real \<Rightarrow> write_result \<Rightarrow> int \<Rightarrow> string \<Rightarrow> string \<Rightarrow> forwarder \<Rightarrow> forwarder" where
  "track_ignored_message cfg current_time w user_id sender_name reason st =
     (if \<not> DUPLICATE_CHECK_ENABLED cfg then st
      else
        save_message_tracking w
          (st\<lparr>message_tracking :=
                (message_tracking st)\<lparr>ignored :=
                  (ignored (message_tracking st))(str user_id \<mapsto>
                     \<lparr>te_name = sender_name,
                      te_timestamp = Some current_time,
                      te_reason = Some reason,
                      te_time_formatted = strftime cfg current_time\<rparr>)\<rparr>\<rparr>))"

definition track_collected_message ::
  "config \<Rightarrow> real \<Rightarrow> write_result \<Rightarrow> int \<Rightarrow> string \<Rightarrow> forwarder \<Rightarrow> forwarder" where
  "track_collected_message cfg current_time w user_id sender_name st =
     (if \<not> DUPLICATE_CHECK_ENABLED cfg then st
      else
        save_message_tracking w
          (st\<lparr>message_tracking :=
                (message_tracking st)\<lparr>collected :=
                  (collected (message_tracking st))(str user_id \<mapsto>
                     \<lparr>te_name = sender_name,
                      te_timestamp = Some current_time,
                      te_reason = None,
                      te_time_formatted = strftime cfg current_time\<rparr>)\<rparr>\<rparr>))"

definition is_message_recently_handled :: "config \<Rightarrow> real \<Rightarrow> int \<Rightarrow> forwarder \<Rightarrow> bool" where
  "is_message_recently_handled cfg current_time user_id st =
     (if \<not> DUPLICATE_CHECK_ENABLED cfg then False
      else
        let cutoff_time = current_time - real_of_int (DUPLICATE_IGNORE_DURATION cfg)
        in if (case ignored (message_tracking st) (str user_id) of
                 None \<Rightarrow> False
               | Some data \<Rightarrow> get_timestamp data > cutoff_time) then True
           else if (case collected (message_tracking st) (str user_id) of
                      None \<Rightarrow> False
                    | Some data \<Rightarrow> get_timestamp data > cutoff_time) then True
           else False)"

section \<open>Sender names and the filter\<close>

text \<open>
  The attributes of a sender that the code reads. An attribute that is absent
  (\<open>hasattr\<close> is false) or \<open>None\<close> is \<open>None\<close> here.
\<close>

record sender =
  sender_id :: int
  first_name :: "string option"
  last_name :: "string option"
  username :: "string option"

text \<open>\<open>message.text\<close> is \<open>None\<close> or a string.\<close>

record message =
  msg_text :: "string option"

definition build_sender_name :: "sender \<Rightarrow> string" where
  "build_sender_name s =
     (let name_parts =
            (case first_name s of
               None \<Rightarrow> []
             | Some f \<Rightarrow> if f \<noteq> [] then [strip f] else []);
          name_parts =
            name_parts @
            (case last_name s of
               None \<Rightarrow> []
             | Some l \<Rightarrow> if l \<noteq> [] then [strip l] else [])
      in case (if truthy (username s) then username s else None) of
           Some u \<Rightarrow>
             (let user = CHR ''@'' # u
              in if name_parts \<noteq> [] then join '' '' name_parts @ '' ('' @ user @ '')''
                 else user)
         | None \<Rightarrow> if name_parts \<noteq> [] then join '' '' name_parts else ''Unknown User'')"

text \<open>
  \<open>re.search(r'\d{3,4}', s)\<close>: the pattern is tried at every position from the left.
  At one position \<open>\d{3,4}\<close> matches when three digits start there, and it takes a fourth
  digit when there is one. The result is the matched text, or \<open>None\<close>.
\<close>

fun match_digits :: "string \<Rightarrow> string option" where
  "match_digits (a # b # c # rest) =
     (if isdigit a \<and> isdigit b \<and> isdigit c
      then Some (case rest of
                   [] \<Rightarrow> [a, b, c]
                 | d # _ \<Rightarrow> if isdigit d then [a, b, c, d] else [a, b, c])
      else None)"
| "match_digits _ = None"

fun re_search_digits :: "string \<Rightarrow> string option" where
  "re_search_digits [] = None"
| "re_search_digits (x # xs) =
     (case match_digits (x # xs) of
        Some m \<Rightarrow> Some m
      | None \<Rightarrow> re_search_digits xs)"

text \<open>
  The value returned by the code is \<open>has_digits or has_full_name\<close>, which the caller
  only tests for truth; the model returns that truth value.
\<close>

definition should_forward_message :: "message \<Rightarrow> sender \<Rightarrow> string \<Rightarrow> bool" where
  "should_forward_message msg s sender_name =
     (if \<not> truthy (msg_text msg) then False
      else
        let has_digits = (re_search_digits sender_name \<noteq> None);
            has_full_name = (truthy (first_name s) \<and> truthy (last_name s))
        in has_digits \<or> has_full_name)"

text \<open>
  The words of the specification: the name contains a run of \<open>n\<close> consecutive decimal
  digits, as a substring.
\<close>

definition contains_digit_run :: "nat \<Rightarrow> string \<Rightarrow> bool" where
  "contains_digit_run n s =
     (\<exists>pre run post. s = pre @ run @ post \<and> length run = n \<and> list_all isdigit run)"

section \<open>Delivery and the message handler\<close>

datatype sender_result = GetSenderRaised | NoSender | Sender sender

text \<open>
  What the outside world supplies during one call of \<open>handle_new_message\<close>: the answer
  of \<open>message.get_sender()\<close>, the clock read by \<open>is_message_recently_handled\<close>, by
  \<open>mark_as_forwarded\<close> and by \<open>track_ignored_message\<close> or \<open>track_collected_message\<close>,
  the date read by \<open>save_daily_messages\<close>, whether \<open>client.get_entity\<close> and building
  and sending the envelope succeed, and the outcome of the two file writes.
\<close>

record env =
  get_sender :: sender_result
  t_check :: real
  t_mark :: real
  t_track :: real
  today :: string
  resolve_ok :: bool
  send_ok :: bool
  daily_write :: write_result
  tracking_write :: write_result

text \<open>
  \<open>forward_message_with_info\<close> returns whether the message was sent. The text of the
  envelope is not modelled; an exception while building or sending it is \<open>send_ok\<close>
  being false.
\<close>

definition forward_message_with_info :: "env \<Rightarrow> forwarder \<Rightarrow> bool \<times> forwarder" where
  "forward_message_with_info e st =
     (case (if \<not> bot_entity st
            then (if resolve_ok e then Some (st\<lparr>bot_entity := True\<rparr>) else None)
            else Some st) of
        None \<Rightarrow> (False, st)
      | Some st1 \<Rightarrow>
          if send_ok e then (True, st1) else (False, st1\<lparr>bot_entity := False\<rparr>))"

text \<open>
  What one call of \<open>handle_new_message\<close> did. The definition below is a call that
  runs from its checks to its end with nothing else in between; the two parts of a call,
  before and after the \<open>await\<close> of the delivery, follow it.
\<close>

datatype outcome =
    Errored
  | NoSenderInfo
  | SkippedRecent
  | SkippedDaily
  | SkippedFilter
  | Relayed
  | RelayFailed

definition handle_new_message ::
  "config \<Rightarrow> message \<Rightarrow> env \<Rightarrow> forwarder \<Rightarrow> outcome \<times> forwarder" where
  "handle_new_message cfg msg e st =
     (case get_sender e of
        GetSenderRaised \<Rightarrow> (Errored, st)
      | NoSender \<Rightarrow> (NoSenderInfo, st)
      | Sender s \<Rightarrow>
          let sender_name = build_sender_name s;
              sid = sender_id s
          in if is_message_recently_handled cfg (t_check e) sid st then (SkippedRecent, st)
             else if has_forwarded_today sid st then
               (SkippedDaily,
                track_ignored_message cfg (t_track e) (tracking_write e) sid sender_name
                  ''Already forwarded today'' st)
             else if \<not> should_forward_message msg s sender_name then
               (SkippedFilter,
                track_ignored_message cfg (t_track e) (tracking_write e) sid sender_name
                  ''Doesn't match forwarding criteria'' st)
             else
               (case forward_message_with_info e st of
                  (True, st1) \<Rightarrow>
                    (Relayed,
                     track_collected_message cfg (t_track e) (tracking_write e) sid sender_name
                       (mark_as_forwarded cfg (t_mark e) (today e) (daily_write e) sid
                          sender_name st1))
                | (False, st1) \<Rightarrow>
                    (RelayFailed,
                     track_ignored_message cfg (t_track e) (tracking_write e) sid sender_name
                       ''Forwarding failed'' st1)))"

text \<open>A relay attempt is a call of \<open>forward_message_with_info\<close>.\<close>

definition relay_attempt :: "outcome \<Rightarrow> bool" where
  "relay_attempt out = (out = Relayed \<or> out = RelayFailed)"

section \<open>The handler as a coroutine\<close>

text \<open>
  \<open>handle_new_message\<close> is a coroutine, and the client runs the handlers of different
  messages as tasks of one event loop, with no lock. After \<open>message.get_sender()\<close> has
  answered, the checks run without interruption up to
  \<open>await self.forward_message_with_info(...)\<close>. There the call is suspended until the
  delivery has answered, and the handlers of other messages and the cleanup task may run;
  the writes to \<open>forwarded_today\<close> and to the tracking data follow when the call is
  resumed. The awaits inside \<open>forward_message_with_info\<close> are taken as one suspension:
  the function tests \<open>self.bot_entity\<close> before its first await, and what it assigns to
  \<open>self.bot_entity\<close> is assigned when the call is resumed.
\<close>

definition forward_finish :: "env \<Rightarrow> bool \<Rightarrow> forwarder \<Rightarrow> bool \<times> forwarder" where
  "forward_finish e had_entity st =
     (case (if \<not> had_entity
            then (if resolve_ok e then Some (st\<lparr>bot_entity := True\<rparr>) else None)
            else Some st) of
        None \<Rightarrow> (False, st)
      | Some st1 \<Rightarrow>
          if send_ok e then (True, st1) else (False, st1\<lparr>bot_entity := False\<rparr>))"

text \<open>
  A call after its checks: it has ended with an outcome, or it is suspended in the
  delivery for a sender, having found \<open>self.bot_entity\<close> set or not.
\<close>

datatype progress = Done outcome | Awaiting sender bool

text \<open>The part of \<open>handle_new_message\<close> up to the \<open>await\<close> of the delivery.\<close>

definition handle_checks ::
  "config \<Rightarrow> message \<Rightarrow> env \<Rightarrow> forwarder \<Rightarrow> progress \<times> forwarder" where
  "handle_checks cfg msg e st =
     (case get_sender e of
        GetSenderRaised \<Rightarrow> (Done Errored, st)
      | NoSender \<Rightarrow> (Done NoSenderInfo, st)
      | Sender s \<Rightarrow>
          let sender_name = build_sender_name s;
              sid = sender_id s
          in if is_message_recently_handled cfg (t_check e) sid st
             then (Done SkippedRecent, st)
             else if has_forwarded_today sid st then
               (Done SkippedDaily,
                track_ignored_message cfg (t_track e) (tracking_write e) sid sender_name
                  ''Already forwarded today'' st)
             else if \<not> should_forward_message msg s sender_name then
               (Done SkippedFilter,
                track_ignored_message cfg (t_track e) (tracking_write e) sid sender_name
                  ''Doesn't match forwarding criteria'' st)
             else (Awaiting s (bot_entity st), st))"

text \<open>
  The part of \<open>handle_new_message\<close> after the \<open>await\<close>, on the state that the forwarder
  has when the call is resumed. The environment is the one of the resumption: the answer
  of the delivery, the clock, the date and the outcome of the writes.
\<close>

definition handle_resume ::
  "config \<Rightarrow> env \<Rightarrow> sender \<Rightarrow> bool \<Rightarrow> forwarder \<Rightarrow> outcome \<times> forwarder" where
  "handle_resume cfg e s had_entity st =
     (let sender_name = build_sender_name s;
          sid = sender_id s
      in case forward_finish e had_entity st of
           (True, st1) \<Rightarrow>
             (Relayed,
              track_collected_message cfg (t_track e) (tracking_write e) sid sender_name
                (mark_as_forwarded cfg (t_mark e) (today e) (daily_write e) sid
                   sender_name st1))
         | (False, st1) \<Rightarrow>
             (RelayFailed,
              track_ignored_message cfg (t_track e) (tracking_write e) sid sender_name
                ''Forwarding failed'' st1))"

text \<open>
  The call for a message of sender \<open>s\<close> comes to its end with outcome \<open>out\<close>, taking
  the forwarder from \<open>st\<close> to \<open>st'\<close>: at its checks, or when it is resumed after the
  delivery.
\<close>

definition finishes ::
  "config \<Rightarrow> message \<Rightarrow> env \<Rightarrow> sender \<Rightarrow> forwarder \<Rightarrow> outcome \<Rightarrow> forwarder \<Rightarrow> bool" where
  "finishes cfg msg e s st out st' =
     ((get_sender e = Sender s \<and> handle_checks cfg msg e st = (Done out, st'))
      \<or> handle_resume cfg e s True st = (out, st')
      \<or> handle_resume cfg e s False st = (out, st'))"

text \<open>The checks of a call end in the delivery: a relay attempt is under way.\<close>

fun attempts :: "progress \<Rightarrow> bool" where
  "attempts (Awaiting s had_entity) = True"
| "attempts (Done out) = False"

section \<open>Life of the process\<close>

text \<open>
  \<open>UserbotForwarder.__init__\<close>: both stores are read from their files and the tracking
  data is cleaned once.
\<close>

definition init ::
  "config \<Rightarrow> string \<Rightarrow> real \<Rightarrow> write_result \<Rightarrow> daily_data json_file \<Rightarrow> tracking json_file
     \<Rightarrow> forwarder" where
  "init cfg day current_time w daily_file tracking_file =
     cleanup_old_tracking_data cfg current_time w
       \<lparr>bot_entity = False,
        forwarded_today = load_daily_messages day daily_file,
        message_tracking = load_message_tracking tracking_file,
        daily_messages_file = daily_file,
        message_tracking_file = tracking_file\<rparr>"

text \<open>
  The running system: the forwarder with its files, and the calls of the handler that
  are suspended in the delivery, each with its sender and with what it found in
  \<open>self.bot_entity\<close>.
\<close>

record system =
  fwd :: forwarder
  waiting :: "(sender \<times> bool) list"

text \<open>
  One step of the system: the handler of an incoming private message runs its checks, and
  ends there or is suspended in the delivery; the suspended call at a position of the
  list is resumed and runs to its end; the periodic cleanup task runs; or the process is
  started again, which builds a new forwarder from the files and leaves no call
  suspended. A resumption of a position that holds no call does nothing.
\<close>

datatype step =
    Message message env
  | Resume nat env
  | Cleanup real write_result
  | Restart string real write_result

fun exec_step :: "config \<Rightarrow> system \<Rightarrow> step \<Rightarrow> system" where
  "exec_step cfg sys (Message msg e) =
     (case handle_checks cfg msg e (fwd sys) of
        (Done out, st) \<Rightarrow> sys\<lparr>fwd := st\<rparr>
      | (Awaiting s had_entity, st) \<Rightarrow>
          sys\<lparr>fwd := st, waiting := waiting sys @ [(s, had_entity)]\<rparr>)"
| "exec_step cfg sys (Resume i e) =
     (if i < length (waiting sys)
      then (case waiting sys ! i of
              (s, had_entity) \<Rightarrow>
                sys\<lparr>fwd := snd (handle_resume cfg e s had_entity (fwd sys)),
                    waiting := take i (waiting sys) @ drop (Suc i) (waiting sys)\<rparr>)
      else sys)"
| "exec_step cfg sys (Cleanup current_time w) =
     sys\<lparr>fwd := cleanup_old_tracking_data cfg current_time w (fwd sys)\<rparr>"
| "exec_step cfg sys (Restart day current_time w) =
     \<lparr>fwd = init cfg day current_time w (daily_messages_file (fwd sys))
              (message_tracking_file (fwd sys)),
      waiting = []\<rparr>"

definition exec :: "config \<Rightarrow> system \<Rightarrow> step list \<Rightarrow> system" where
  "exec cfg sys steps = foldl (exec_step cfg) sys steps"

text \<open>Conditions on the steps between two events.\<close>

fun is_restart :: "step \<Rightarrow> bool" where
  "is_restart (Restart day current_time w) = True"
| "is_restart _ = False"

text \<open>
  The step happens on date \<open>d\<close> and its write of the daily file, if any, succeeds. Only a
  resumed call and a restart read the date.
\<close>

fun same_day_saved :: "string \<Rightarrow> step \<Rightarrow> bool" where
  "same_day_saved d (Message msg e) = True"
| "same_day_saved d (Resume i e) = (today e = d \<and> daily_write e = Written)"
| "same_day_saved d (Cleanup current_time w) = True"
| "same_day_saved d (Restart day current_time w) = (day = d)"

text \<open>The step's write of the tracking file, if any, succeeds.\<close>

fun tracking_saved :: "step \<Rightarrow> bool" where
  "tracking_saved (Message msg e) = (tracking_write e = Written)"
| "tracking_saved (Resume i e) = (tracking_write e = Written)"
| "tracking_saved (Cleanup current_time w) = (w = Written)"
| "tracking_saved (Restart day current_time w) = (w = Written)"

text \<open>
  The clock does not run backwards between two events: a handler in between stamps its
  entry no earlier than \<open>lo\<close>, and a cleanup in between reads the clock no later than
  \<open>hi\<close>.
\<close>

fun clock_between :: "real \<Rightarrow> real \<Rightarrow> step \<Rightarrow> bool" where
  "clock_between lo hi (Message msg e) = (lo \<le> t_track e)"
| "clock_between lo hi (Resume i e) = (lo \<le> t_track e)"
| "clock_between lo hi (Cleanup current_time w) = (current_time \<le> hi)"
| "clock_between lo hi (Restart day current_time w) = (current_time \<le> hi)"

section \<open>Facts about a state that the steps maintain\<close>

text \<open>
  The key \<open>k\<close> has an entry, ignored or collected, whose time stamp is later than
  \<open>cutoff\<close>: the test made by \<open>is_message_recently_handled\<close>.
\<close>

definition tracked_since :: "real \<Rightarrow> string \<Rightarrow> forwarder \<Rightarrow> bool" where
  "tracked_since cutoff k st =
     ((case ignored (message_tracking st) k of
         None \<Rightarrow> False
       | Some d \<Rightarrow> get_timestamp d > cutoff)
      \<or> (case collected (message_tracking st) k of
            None \<Rightarrow> False
          | Some d \<Rightarrow> get_timestamp d > cutoff))"

text \<open>The tracking file holds the tracking data that is in memory.\<close>

definition tracking_on_disk :: "forwarder \<Rightarrow> bool" where
  "tracking_on_disk st = (message_tracking_file st = Parsed (message_tracking st))"

text \<open>The daily file is dated \<open>d\<close> and lists the key \<open>k\<close>.\<close>

definition daily_on_disk :: "string \<Rightarrow> string \<Rightarrow> forwarder \<Rightarrow> bool" where
  "daily_on_disk d k st =
     (case daily_messages_file st of
        Parsed data \<Rightarrow>
          dd_date data = Some d
          \<and> (case dd_forwarded_users data of None \<Rightarrow> False | Some users \<Rightarrow> k \<in> dom users)
      | _ \<Rightarrow> False)"

section \<open>Retry loop and exit code\<close>

text \<open>
  One pass through the \<open>while\<close> loop of \<open>run_with_retry\<close>, as the outside world decides
  it: \<open>shutdown_event\<close> is already set when the loop condition is tested;
  \<open>setup_client\<close> returns false; an \<open>Exception\<close> leaves \<open>setup_client\<close>, before
  \<open>retry_count\<close> is reset; the client disconnects while \<open>shutdown_event\<close> is not set;
  \<open>shutdown_event\<close> is set when the wait returns; an \<open>Exception\<close> is raised after
  \<open>setup_client\<close> has returned true and \<open>retry_count\<close> has been reset; a
  \<open>KeyboardInterrupt\<close> reaches the body; the \<open>finally\<close> clause raises outside its inner
  \<open>try\<close>. The flag of the two exception passes tells whether \<open>shutdown_event\<close> is set at
  the test in the handler or during the delay.
\<close>

datatype pass =
    ShutdownAtTest
  | SetupFailed
  | SetupRaised bool
  | Disconnected
  | ShutdownWhileRunning
  | RunRaised bool
  | Interrupted
  | FinallyRaised

definition max_retries :: nat where
  "max_retries = 5"

text \<open>
  How \<open>run_with_retry\<close> ends: it returns, with the \<open>retry_count\<close> it has reached, or an
  exception leaves it.
\<close>

datatype loop_end = Returned nat | Escaped

text \<open>
  The loop over a finite script of passes, from the current \<open>retry_count\<close>. The result
  is \<open>None\<close> when the script ends while the loop is still running.
\<close>

fun run_with_retry :: "nat \<Rightarrow> pass list \<Rightarrow> loop_end option" where
  "run_with_retry retry_count [] =
     (if retry_count < max_retries then None else Some (Returned retry_count))"
| "run_with_retry retry_count (p # ps) =
     (if \<not> retry_count < max_retries then Some (Returned retry_count)
      else case p of
        ShutdownAtTest \<Rightarrow> Some (Returned retry_count)
      | SetupFailed \<Rightarrow> Some (Returned retry_count)
      | SetupRaised shutdown \<Rightarrow>
          (let retry_count = retry_count + 1
           in if retry_count < max_retries \<and> \<not> shutdown then run_with_retry retry_count ps
              else Some (Returned retry_count))
      | Disconnected \<Rightarrow> run_with_retry 0 ps
      | ShutdownWhileRunning \<Rightarrow> Some (Returned 0)
      | RunRaised shutdown \<Rightarrow>
          (let retry_count = 0 + 1
           in if retry_count < max_retries \<and> \<not> shutdown then run_with_retry retry_count ps
              else Some (Returned retry_count))
      | Interrupted \<Rightarrow> Some (Returned retry_count)
      | FinallyRaised \<Rightarrow> Some Escaped)"

text \<open>
  One start of the program: the \<open>--stats\<close> flag, whether \<open>API_ID\<close>, \<open>API_HASH\<close> and
  \<open>BOT_USERNAME\<close> are set, whether \<open>UserbotForwarder()\<close> raises, and the passes of the
  loop.
\<close>

record invocation =
  arg_stats :: bool
  api_id_set :: bool
  api_hash_set :: bool
  bot_username_set :: bool
  forwarder_raises :: bool
  passes :: "pass list"

text \<open>
  \<open>main()\<close> returns an exit code (\<open>Inr\<close>), raises (\<open>Inl\<close>), or does not return within
  the script (\<open>None\<close>).
\<close>

definition main :: "invocation \<Rightarrow> (unit + int) option" where
  "main start =
     (if \<not> api_id_set start \<or> \<not> api_hash_set start then Some (Inr 1)
      else if \<not> bot_username_set start then Some (Inr 1)
      else if forwarder_raises start then Some (Inl ())
      else case run_with_retry 0 (passes start) of
             None \<Rightarrow> None
           | Some (Returned retry_count) \<Rightarrow> Some (Inr 0)
           | Some Escaped \<Rightarrow> Some (Inr 1))"

text \<open>The exit status of the script under \<open>if __name__ == '__main__'\<close>.\<close>

definition exit_code :: "invocation \<Rightarrow> int option" where
  "exit_code start =
     (if arg_stats start then Some 0
      else case main start of
             None \<Rightarrow> None
           | Some (Inr code) \<Rightarrow> Some code
           | Some (Inl err) \<Rightarrow> Some 1)"

section \<open>Example inputs\<close>

definition no_format :: "real \<Rightarrow> string" where
  "no_format t = []"

definition cfg_on :: config where
  "cfg_on = \<lparr>DUPLICATE_IGNORE_DURATION = 3600, DUPLICATE_CHECK_ENABLED = True,
             strftime = no_format\<rparr>"

definition cfg_off :: config where
  "cfg_off = \<lparr>DUPLICATE_IGNORE_DURATION = 3600, DUPLICATE_CHECK_ENABLED = False,
              strftime = no_format\<rparr>"

definition john :: sender where
  "john = \<lparr>sender_id = 42, first_name = Some ''John'', last_name = Some ''Doe'',
           username = None\<rparr>"

definition hello :: message where
  "hello = \<lparr>msg_text = Some ''hi''\<rparr>"

definition fresh :: forwarder where
  "fresh = \<lparr>bot_entity = False, forwarded_today = Map.empty,
            message_tracking = \<lparr>ignored = Map.empty, collected = Map.empty\<rparr>,
            daily_messages_file = Missing, message_tracking_file = Missing\<rparr>"

text \<open>
  A call of the handler for a message of \<open>john\<close> at clock \<open>t\<close> on date \<open>d\<close>, with every
  write succeeding; \<open>ok\<close> is the answer of the delivery.
\<close>

definition at_time :: "real \<Rightarrow> string \<Rightarrow> bool \<Rightarrow> env" where
  "at_time t d ok =
     \<lparr>get_sender = Sender john, t_check = t, t_mark = t, t_track = t, today = d,
      resolve_ok = True, send_ok = ok, daily_write = Written, tracking_write = Written\<rparr>"

text \<open>Two senders without a last name, with two and with five digits in the handle.\<close>

definition bob12 :: sender where
  "bob12 = \<lparr>sender_id = 7, first_name = Some ''Bob'', last_name = None,
            username = Some ''bob12''\<rparr>"

definition bob12345 :: sender where
  "bob12345 = \<lparr>sender_id = 8, first_name = Some ''Bob'', last_name = None,
               username = Some ''bob12345''\<rparr>"

text \<open>A store whose only entry, collected at clock 0, belongs to sender 42.\<close>

definition old_entry :: tracking_entry where
  "old_entry = \<lparr>te_name = ''John Doe'', te_timestamp = Some 0, te_reason = None,
                te_time_formatted = []\<rparr>"

definition stale :: forwarder where
  "stale = fresh\<lparr>message_tracking :=
                   \<lparr>ignored = Map.empty, collected = [''42'' \<mapsto> old_entry]\<rparr>\<rparr>"

text \<open>
  The state after a first message of \<open>john\<close> at clock 0 on 1 January: delivered
  (\<open>relayed_at_0\<close>), or not delivered because the send failed (\<open>failed_at_0\<close>).
\<close>

definition relayed_at_0 :: forwarder where
  "relayed_at_0 = snd (handle_new_message cfg_on hello (at_time 0 ''2024-01-01'' True) fresh)"

definition failed_at_0 :: forwarder where
  "failed_at_0 = snd (handle_new_message cfg_on hello (at_time 0 ''2024-01-01'' False) fresh)"

text \<open>
  The process keeps running into 2 January and then marks a second sender.
\<close>

definition next_day_mark :: forwarder where
  "next_day_mark =
     mark_as_forwarded cfg_on 90000 ''2024-01-02'' Written 7 ''Bob (@bob12)'' relayed_at_0"

text \<open>
  With tracking disabled: a delivery on 1 January, then a start of the process on
  2 January, one minute later.
\<close>

definition day1_off :: forwarder where
  "day1_off = snd (handle_new_message cfg_off hello (at_time 0 ''2024-01-01'' True) fresh)"

definition day2_off :: forwarder where
  "day2_off =
     fwd (exec_step cfg_off \<lparr>fwd = day1_off, waiting = []\<rparr>
            (Restart ''2024-01-02'' 60 Written))"

text \<open>
  Two starts of the program with valid credentials: \<open>setup_client\<close> returns false on
  the first attempt; five passes in a row end in an exception before \<open>retry_count\<close> is
  reset.
\<close>

definition setup_failure :: invocation where
  "setup_failure =
     \<lparr>arg_stats = False, api_id_set = True, api_hash_set = True, bot_username_set = True,
      forwarder_raises = False, passes = [SetupFailed]\<rparr>"

definition retries_exhausted :: invocation where
  "retries_exhausted =
     \<lparr>arg_stats = False, api_id_set = True, api_hash_set = True, bot_username_set = True,
      forwarder_raises = False,
      passes = [SetupRaised False, SetupRaised False, SetupRaised False, SetupRaised False,
                SetupRaised False]\<rparr>"

text \<open>
  Steps between two messages: a periodic cleanup at clock 900 and a new start of the
  process at clock 1000, both on 1 January and with successful writes.
\<close>

definition between :: "step list" where
  "between = [Cleanup 900 Written, Restart ''2024-01-01'' 1000 Written]"

text \<open>The system in which no call is suspended.\<close>

definition idle :: "forwarder \<Rightarrow> system" where
  "idle st = \<lparr>fwd = st, waiting = []\<rparr>"

text \<open>
  Two messages of \<open>john\<close> arrive one second apart: the second is checked while the call
  for the first is suspended in the delivery. Then the first call is resumed.
\<close>

definition two_waiting :: system where
  "two_waiting =
     exec cfg_on (idle fresh)
       [Message hello (at_time 0 ''2024-01-01'' True),
        Message hello (at_time 1 ''2024-01-01'' True)]"

definition first_resumed :: system where
  "first_resumed = exec_step cfg_on two_waiting (Resume 0 (at_time 2 ''2024-01-01'' True))"

text \<open>
  A delivery at clock 0 whose write of the daily file fails in \<open>open\<close>, and the
  forwarder after this call and a new start of the process at clock 5000 on the same
  date.
\<close>

definition daily_unsaved :: env where
  "daily_unsaved = (at_time 0 ''2024-01-01'' True)\<lparr>daily_write := OpenFailed\<rparr>"

definition restarted_daily_unsaved :: forwarder where
  "restarted_daily_unsaved =
     fwd (exec cfg_on (idle fresh)
            [Message hello daily_unsaved, Resume 0 daily_unsaved,
             Restart ''2024-01-01'' 5000 Written])"

text \<open>
  A failed delivery at clock 0 whose write of the tracking file fails in \<open>open\<close>, and the
  forwarder after this call and a new start of the process at clock 10.
\<close>

definition tracking_unsaved :: env where
  "tracking_unsaved = (at_time 0 ''2024-01-01'' False)\<lparr>tracking_write := OpenFailed\<rparr>"

definition restarted_tracking_unsaved :: forwarder where
  "restarted_tracking_unsaved =
     fwd (exec cfg_on (idle fresh)
            [Message hello tracking_unsaved, Resume 0 tracking_unsaved,
             Restart ''2024-01-01'' 10 Written])"

text \<open>
  A failed delivery checked at clock 0, after which the system clock is set back: the
  entry is stamped 5000 seconds earlier. The forwarder after this call.
\<close>

definition clock_set_back :: env where
  "clock_set_back = (at_time 0 ''2024-01-01'' False)\<lparr>t_track := - 5000\<rparr>"

definition after_clock_set_back :: forwarder where
  "after_clock_set_back =
     fwd (exec cfg_on (idle fresh) [Message hello clock_set_back, Resume 0 clock_set_back])"

section \<open>Evaluating the examples\<close>

lemma str_42: "str 42 = ''42''"
  by (simp add: str_def str_nat.simps)

lemma str_7: "str 7 = ''7''"
  by (simp add: str_def str_nat.simps)

lemma john_name: "build_sender_name john = ''John Doe''"
  by (simp add: build_sender_name_def john_def truthy_def strip_def isspace_def Let_def)

lemma john_passes: "should_forward_message hello john ''John Doe''"
  by (simp add: should_forward_message_def hello_def john_def truthy_def Let_def)

lemma john_id: "sender_id john = 42"
  by (simp add: john_def)

lemma bob_names:
  "build_sender_name bob12 = ''Bob (@bob12)''"
  "build_sender_name bob12345 = ''Bob (@bob12345)''"
  by (simp_all add: build_sender_name_def bob12_def bob12345_def truthy_def strip_def
        isspace_def Let_def)

lemmas example_simps =
  handle_new_message_def at_time_def fresh_def cfg_on_def cfg_off_def no_format_def str_42
  john_name john_passes john_id is_message_recently_handled_def has_forwarded_today_def
  forward_message_with_info_def mark_as_forwarded_def track_collected_message_def
  track_ignored_message_def save_daily_messages_def save_message_tracking_def write_file_def
  get_timestamp_def Let_def

lemma relayed_at_0_facts:
  "fst (handle_new_message cfg_on hello (at_time 0 ''2024-01-01'' True) fresh) = Relayed"
  "collected (message_tracking relayed_at_0) ''42'' = Some old_entry"
  "ignored (message_tracking relayed_at_0) ''42'' = None"
  "forwarded_today relayed_at_0 ''42'' = Some \<lparr>de_name = ''John Doe'', de_time = []\<rparr>"
  by (simp_all add: relayed_at_0_def old_entry_def example_simps)

lemma failed_at_0_facts:
  "fst (handle_new_message cfg_on hello (at_time 0 ''2024-01-01'' False) fresh) = RelayFailed"
  "ignored (message_tracking failed_at_0) ''42'' =
     Some \<lparr>te_name = ''John Doe'', te_timestamp = Some 0,
           te_reason = Some ''Forwarding failed'', te_time_formatted = []\<rparr>"
  "collected (message_tracking failed_at_0) ''42'' = None"
  "forwarded_today failed_at_0 = Map.empty"
  by (simp_all add: failed_at_0_def example_simps)

lemma day2_off_facts:
  "fst (handle_new_message cfg_off hello (at_time 0 ''2024-01-01'' True) fresh) = Relayed"
  "forwarded_today day2_off = Map.empty"
  by (simp_all add: day2_off_def day1_off_def init_def cleanup_old_tracking_data_def
        load_daily_messages_def load_message_tracking_def example_simps)

section \<open>Pruning\<close>

lemma keep_recent_empty: "keep_recent c Map.empty = Map.empty"
  by (simp add: keep_recent_def)

text \<open>
  Claim C7, as amended. When tracking is enabled, \<open>cleanup_old_tracking_data\<close> removes
  from the ignored and from the collected category exactly the entries with
  \<open>now - timestamp \<ge> window\<close> (an entry without a time stamp counts as stamped 0),
  keeps every other entry as it is, and then writes the result to the tracking file.
\<close>

theorem cleanup_removes_exactly_expired:
  assumes "DUPLICATE_CHECK_ENABLED cfg"
  shows "let st' = cleanup_old_tracking_data cfg now w st;
             window = real_of_int (DUPLICATE_IGNORE_DURATION cfg)
         in (\<forall>k. ignored (message_tracking st') k =
                  (case ignored (message_tracking st) k of
                     None \<Rightarrow> None
                   | Some d \<Rightarrow> if now - get_timestamp d \<ge> window then None else Some d))
          \<and> (\<forall>k. collected (message_tracking st') k =
                  (case collected (message_tracking st) k of
                     None \<Rightarrow> None
                   | Some d \<Rightarrow> if now - get_timestamp d \<ge> window then None else Some d))
          \<and> message_tracking_file st' =
              write_file w (message_tracking st') (message_tracking_file st)
          \<and> forwarded_today st' = forwarded_today st"
  using assms
  by (auto simp: cleanup_old_tracking_data_def save_message_tracking_def Let_def
        keep_recent_def split: option.splits)

text \<open>
  The boundary on an example: with a window of 3600 seconds, the entry stamped 0 is
  removed by a cleanup at clock 3600 and kept by a cleanup at clock 3599, and the file
  then holds what is in memory.
\<close>

theorem cleanup_removes_exactly_expired_witness:
  "DUPLICATE_CHECK_ENABLED cfg_on
   \<and> collected (message_tracking (cleanup_old_tracking_data cfg_on 3600 Written stale)) ''42''
       = None
   \<and> collected (message_tracking (cleanup_old_tracking_data cfg_on 3599 Written stale)) ''42''
       = Some old_entry
   \<and> message_tracking_file (cleanup_old_tracking_data cfg_on 3599 Written stale)
       = Parsed (message_tracking (cleanup_old_tracking_data cfg_on 3599 Written stale))"
proof -
  have en: "DUPLICATE_CHECK_ENABLED cfg_on"
    by (simp add: cfg_on_def)
  show ?thesis
    using en cleanup_removes_exactly_expired [OF en, of 3600 Written stale]
      cleanup_removes_exactly_expired [OF en, of 3599 Written stale]
    by (simp add: cfg_on_def stale_def fresh_def old_entry_def get_timestamp_def Let_def
          write_file_def)
qed

text \<open>
  Claim C7 as it is written fails when tracking is disabled: the entry of \<open>stale\<close> is
  10000 seconds old, the window is 3600 seconds, and the cleanup leaves it in place.
\<close>

theorem cleanup_disabled_keeps_expired:
  "10000 - get_timestamp old_entry \<ge> real_of_int (DUPLICATE_IGNORE_DURATION cfg_off)
   \<and> collected (message_tracking stale) ''42'' = Some old_entry
   \<and> collected (message_tracking (cleanup_old_tracking_data cfg_off 10000 Written stale)) ''42''
       = Some old_entry"
  by (simp add: cleanup_old_tracking_data_def cfg_off_def stale_def fresh_def old_entry_def
        get_timestamp_def)

section \<open>Loading and saving\<close>

text \<open>
  Claim C9. \<open>load_message_tracking\<close> returns the document of the tracking file when the
  file exists and parses, and the empty tracking data when the file is missing or does
  not parse. \<open>load_daily_messages\<close> returns the senders of the daily file when the file
  parses and is dated today, and no daily record when the file is missing, does not
  parse or carries another date. A forwarder built from missing or unparsable files
  starts empty; every result is a value, no case raises. What a successful save has
  written is what the loaders read back. A save changes nothing in memory whatever
  happens to the write: when \<open>open\<close> fails the file is as before, when \<open>json.dump\<close> fails
  the file no longer parses and loads as empty, and in both cases the entry just recorded
  is still found by \<open>is_message_recently_handled\<close> and \<open>has_forwarded_today\<close>.
\<close>

theorem load_falls_back_and_save_keeps_memory:
  "load_message_tracking (Parsed data) = data
   \<and> load_message_tracking Missing = \<lparr>ignored = Map.empty, collected = Map.empty\<rparr>
   \<and> load_message_tracking Corrupt = \<lparr>ignored = Map.empty, collected = Map.empty\<rparr>
   \<and> load_daily_messages day (Parsed daily) =
       (if dd_date daily = Some day
        then (case dd_forwarded_users daily of None \<Rightarrow> Map.empty | Some users \<Rightarrow> users)
        else Map.empty)
   \<and> load_daily_messages day Missing = Map.empty
   \<and> load_daily_messages day Corrupt = Map.empty
   \<and> message_tracking (init cfg day now w Missing Missing)
       = \<lparr>ignored = Map.empty, collected = Map.empty\<rparr>
   \<and> message_tracking (init cfg day now w Corrupt Corrupt)
       = \<lparr>ignored = Map.empty, collected = Map.empty\<rparr>
   \<and> forwarded_today (init cfg day now w Missing Missing) = Map.empty
   \<and> forwarded_today (init cfg day now w Corrupt Corrupt) = Map.empty
   \<and> load_message_tracking (message_tracking_file (save_message_tracking Written st))
       = message_tracking st
   \<and> load_daily_messages day (daily_messages_file (save_daily_messages day Written st))
       = forwarded_today st
   \<and> (day' \<noteq> day \<longrightarrow>
        load_daily_messages day' (daily_messages_file (save_daily_messages day Written st))
          = Map.empty)
   \<and> forwarded_today
        (init cfg day now w (daily_messages_file (save_daily_messages day Written st)) f)
       = forwarded_today st
   \<and> message_tracking (save_message_tracking w st) = message_tracking st
   \<and> forwarded_today (save_message_tracking w st) = forwarded_today st
   \<and> message_tracking (save_daily_messages day w st) = message_tracking st
   \<and> forwarded_today (save_daily_messages day w st) = forwarded_today st
   \<and> message_tracking_file (save_message_tracking OpenFailed st) = message_tracking_file st
   \<and> message_tracking_file (save_message_tracking DumpFailed st) = Corrupt
   \<and> message_tracking_file (save_message_tracking Written st) = Parsed (message_tracking st)
   \<and> daily_messages_file (save_daily_messages day OpenFailed st) = daily_messages_file st
   \<and> daily_messages_file (save_daily_messages day DumpFailed st) = Corrupt
   \<and> load_message_tracking (message_tracking_file (save_message_tracking DumpFailed st))
       = \<lparr>ignored = Map.empty, collected = Map.empty\<rparr>
   \<and> load_daily_messages day (daily_messages_file (save_daily_messages day DumpFailed st))
       = Map.empty
   \<and> (DUPLICATE_CHECK_ENABLED cfg
        \<and> t - t' < real_of_int (DUPLICATE_IGNORE_DURATION cfg) \<longrightarrow>
        is_message_recently_handled cfg t u (track_ignored_message cfg t' w u n r st)
        \<and> is_message_recently_handled cfg t u (track_collected_message cfg t' w u n st))
   \<and> has_forwarded_today u (mark_as_forwarded cfg t day w u n st)"
  by (simp add: load_message_tracking_def load_daily_messages_def init_def
        cleanup_old_tracking_data_def save_message_tracking_def save_daily_messages_def
        keep_recent_empty write_file_def Let_def is_message_recently_handled_def
        track_ignored_message_def track_collected_message_def mark_as_forwarded_def
        has_forwarded_today_def get_timestamp_def)

text \<open>
  The daily file written on 1 January after the delivery of \<open>john\<close> gives his record
  back on 1 January and nothing on 2 January. A failed delivery recorded at clock 0 while
  \<open>open\<close> fails leaves no tracking file, and \<open>john\<close> is recently handled at clock 1800
  all the same.
\<close>

theorem load_falls_back_and_save_keeps_memory_witness:
  "''2024-01-02'' \<noteq> ''2024-01-01''
   \<and> load_daily_messages ''2024-01-01''
        (daily_messages_file (save_daily_messages ''2024-01-01'' Written relayed_at_0)) ''42''
       = Some \<lparr>de_name = ''John Doe'', de_time = []\<rparr>
   \<and> load_daily_messages ''2024-01-02''
        (daily_messages_file (save_daily_messages ''2024-01-01'' Written relayed_at_0))
       = Map.empty
   \<and> DUPLICATE_CHECK_ENABLED cfg_on
   \<and> 1800 - 0 < real_of_int (DUPLICATE_IGNORE_DURATION cfg_on)
   \<and> message_tracking_file
        (track_ignored_message cfg_on 0 OpenFailed 42 ''John Doe'' ''Forwarding failed'' fresh)
       = Missing
   \<and> is_message_recently_handled cfg_on 1800 42
        (track_ignored_message cfg_on 0 OpenFailed 42 ''John Doe'' ''Forwarding failed'' fresh)"
proof -
  have en: "DUPLICATE_CHECK_ENABLED cfg_on"
    and near: "1800 - 0 < real_of_int (DUPLICATE_IGNORE_DURATION cfg_on)"
    and days: "''2024-01-02'' \<noteq> ''2024-01-01''"
    by (simp_all add: cfg_on_def)
  have missing: "message_tracking_file
        (track_ignored_message cfg_on 0 OpenFailed 42 ''John Doe'' ''Forwarding failed'' fresh)
       = Missing"
    by (simp add: track_ignored_message_def save_message_tracking_def write_file_def
          cfg_on_def fresh_def)
  from load_falls_back_and_save_keeps_memory
    [where day = "''2024-01-01''" and day' = "''2024-01-02''" and st = relayed_at_0
       and cfg = cfg_on and t = 1800 and t' = 0 and w = OpenFailed and u = 42
       and n = "''John Doe''" and r = "''Forwarding failed''"]
  have "load_daily_messages ''2024-01-01''
          (daily_messages_file (save_daily_messages ''2024-01-01'' Written relayed_at_0))
          = forwarded_today relayed_at_0"
    and "load_daily_messages ''2024-01-02''
          (daily_messages_file (save_daily_messages ''2024-01-01'' Written relayed_at_0))
          = Map.empty"
    using days by blast+
  moreover from load_falls_back_and_save_keeps_memory
    [where cfg = cfg_on and t = 1800 and t' = 0 and w = OpenFailed and u = 42
       and n = "''John Doe''" and r = "''Forwarding failed''" and st = fresh]
  have "is_message_recently_handled cfg_on 1800 42
          (track_ignored_message cfg_on 0 OpenFailed 42 ''John Doe'' ''Forwarding failed'' fresh)"
    using en near by blast
  ultimately show ?thesis
    using en near days missing relayed_at_0_facts(4) by simp
qed

section \<open>Tracking disabled\<close>

text \<open>
  Claim C10. When \<open>DUPLICATE_CHECK_ENABLED\<close> is false, \<open>is_message_recently_handled\<close>
  is false, and \<open>track_ignored_message\<close>, \<open>track_collected_message\<close> and
  \<open>cleanup_old_tracking_data\<close> return the state as it is. The handler then leaves the
  tracking data and its file untouched, and what it does with a message whose sender is
  known is decided by \<open>has_forwarded_today\<close>, the filter and the delivery alone.
\<close>

theorem tracking_disabled_is_inert:
  assumes "\<not> DUPLICATE_CHECK_ENABLED cfg"
  shows "is_message_recently_handled cfg t u st = False
       \<and> track_ignored_message cfg t w u n r st = st
       \<and> track_collected_message cfg t w u n st = st
       \<and> cleanup_old_tracking_data cfg t w st = st
       \<and> message_tracking (snd (handle_new_message cfg msg e st)) = message_tracking st
       \<and> message_tracking_file (snd (handle_new_message cfg msg e st)) = message_tracking_file st
       \<and> (get_sender e = Sender s \<longrightarrow>
            fst (handle_new_message cfg msg e st) =
              (if has_forwarded_today (sender_id s) st then SkippedDaily
               else if \<not> should_forward_message msg s (build_sender_name s) then SkippedFilter
               else if fst (forward_message_with_info e st) then Relayed
               else RelayFailed))"
  using assms
  by (auto simp: is_message_recently_handled_def track_ignored_message_def
        track_collected_message_def cleanup_old_tracking_data_def handle_new_message_def
        mark_as_forwarded_def save_daily_messages_def forward_message_with_info_def Let_def
        split: sender_result.splits prod.splits bool.splits)

text \<open>
  A repeated delivery inside the window: with tracking disabled, a message of \<open>john\<close> is
  delivered at clock 0 on 1 January, the process starts again on 2 January, and his
  message at clock 120 is delivered again, 120 seconds after the first, with a window of
  3600 seconds.
\<close>

theorem tracking_disabled_is_inert_witness:
  "\<not> DUPLICATE_CHECK_ENABLED cfg_off
   \<and> get_sender (at_time 120 ''2024-01-02'' True) = Sender john
   \<and> fst (handle_new_message cfg_off hello (at_time 0 ''2024-01-01'' True) fresh) = Relayed
   \<and> fst (handle_new_message cfg_off hello (at_time 120 ''2024-01-02'' True) day2_off) = Relayed
   \<and> (120 :: real) - 0 < real_of_int (DUPLICATE_IGNORE_DURATION cfg_off)"
proof -
  have off: "\<not> DUPLICATE_CHECK_ENABLED cfg_off"
    by (simp add: cfg_off_def)
  have s: "get_sender (at_time 120 ''2024-01-02'' True) = Sender john"
    by (simp add: at_time_def)
  from tracking_disabled_is_inert [OF off, of _ _ day2_off _ _ _ hello
      "at_time 120 ''2024-01-02'' True" john] s
  have "fst (handle_new_message cfg_off hello (at_time 120 ''2024-01-02'' True) day2_off) =
          (if has_forwarded_today (sender_id john) day2_off then SkippedDaily
           else if \<not> should_forward_message hello john (build_sender_name john)
             then SkippedFilter
           else if fst (forward_message_with_info (at_time 120 ''2024-01-02'' True) day2_off)
             then Relayed
           else RelayFailed)"
    by blast
  then have "fst (handle_new_message cfg_off hello (at_time 120 ''2024-01-02'' True) day2_off)
               = Relayed"
    by (simp add: has_forwarded_today_def day2_off_facts john_name john_passes
          forward_message_with_info_def at_time_def)
  with off s day2_off_facts(1) show ?thesis
    by (simp add: cfg_off_def)
qed

section \<open>Order of the checks\<close>

text \<open>
  Claim C3. For a message whose sender is known, the handler applies its checks in a
  fixed order and the first that matches decides: recently handled, then the state is
  returned as it is; else already forwarded today, then the sender is passed to
  \<open>track_ignored_message\<close> with the reason \<open>Already forwarded today\<close>; else the filter
  fails, then the sender is passed to \<open>track_ignored_message\<close> with the reason
  \<open>Doesn't match forwarding criteria\<close>; else the message goes to the delivery. With
  tracking enabled the two recorded skips leave an ignored entry of the sender, stamped
  with the clock, that carries the reason.
\<close>

theorem decision_order:
  assumes "get_sender e = Sender s"
  shows "let sid = sender_id s; name = build_sender_name s;
             recent = is_message_recently_handled cfg (t_check e) sid st;
             daily = has_forwarded_today sid st;
             pass = should_forward_message msg s name;
             out = fst (handle_new_message cfg msg e st);
             st' = snd (handle_new_message cfg msg e st)
         in (out = SkippedRecent \<longleftrightarrow> recent)
          \<and> (out = SkippedDaily \<longleftrightarrow> \<not> recent \<and> daily)
          \<and> (out = SkippedFilter \<longleftrightarrow> \<not> recent \<and> \<not> daily \<and> \<not> pass)
          \<and> (relay_attempt out \<longleftrightarrow> \<not> recent \<and> \<not> daily \<and> pass)
          \<and> (out = SkippedRecent \<longrightarrow> st' = st)
          \<and> (out = SkippedDaily \<longrightarrow>
                st' = track_ignored_message cfg (t_track e) (tracking_write e) sid name
                        ''Already forwarded today'' st)
          \<and> (out = SkippedFilter \<longrightarrow>
                st' = track_ignored_message cfg (t_track e) (tracking_write e) sid name
                        ''Doesn't match forwarding criteria'' st)
          \<and> (DUPLICATE_CHECK_ENABLED cfg \<and> (out = SkippedDaily \<or> out = SkippedFilter) \<longrightarrow>
                (\<exists>d. ignored (message_tracking st') (str sid) = Some d
                     \<and> te_timestamp d = Some (t_track e)
                     \<and> te_reason d = Some (if out = SkippedDaily then ''Already forwarded today''
                                            else ''Doesn't match forwarding criteria'')))"
  using assms
  by (auto simp: handle_new_message_def Let_def relay_attempt_def track_ignored_message_def
        save_message_tracking_def
        split: prod.splits bool.splits)

text \<open>
  After the delivery at clock 0, \<open>john\<close> is both recently handled and forwarded today.
  At clock 1800 the first check decides and the state is unchanged; at clock 3600 the
  entry is no longer recent and the second check decides.
\<close>

theorem decision_order_witness:
  "get_sender (at_time 1800 ''2024-01-01'' True) = Sender john
   \<and> get_sender (at_time 3600 ''2024-01-01'' True) = Sender john
   \<and> has_forwarded_today (sender_id john) relayed_at_0
   \<and> handle_new_message cfg_on hello (at_time 1800 ''2024-01-01'' True) relayed_at_0
       = (SkippedRecent, relayed_at_0)
   \<and> fst (handle_new_message cfg_on hello (at_time 3600 ''2024-01-01'' True) relayed_at_0)
       = SkippedDaily"
proof -
  have s: "get_sender (at_time 1800 ''2024-01-01'' True) = Sender john"
    and s': "get_sender (at_time 3600 ''2024-01-01'' True) = Sender john"
    by (simp_all add: at_time_def)
  have d: "has_forwarded_today (sender_id john) relayed_at_0"
    by (simp add: has_forwarded_today_def john_id str_42 relayed_at_0_facts dom_def)
  have r: "is_message_recently_handled cfg_on (t_check (at_time 1800 ''2024-01-01'' True))
             (sender_id john) relayed_at_0"
    and r': "\<not> is_message_recently_handled cfg_on
               (t_check (at_time 3600 ''2024-01-01'' True)) (sender_id john) relayed_at_0"
    by (simp_all add: is_message_recently_handled_def john_id str_42 relayed_at_0_facts
          cfg_on_def at_time_def old_entry_def get_timestamp_def)
  from decision_order [OF s, of cfg_on relayed_at_0 hello] r
  have "handle_new_message cfg_on hello (at_time 1800 ''2024-01-01'' True) relayed_at_0
          = (SkippedRecent, relayed_at_0)"
    by (simp add: Let_def prod_eq_iff)
  moreover from decision_order [OF s', of cfg_on relayed_at_0 hello] r' d
  have "fst (handle_new_message cfg_on hello (at_time 3600 ''2024-01-01'' True) relayed_at_0)
          = SkippedDaily"
    by (simp add: Let_def)
  ultimately show ?thesis using s s' d by simp
qed

section \<open>The filter\<close>

lemma match_digits_Some_iff:
  "match_digits s \<noteq> None \<longleftrightarrow>
   (\<exists>a b c rest. s = a # b # c # rest \<and> isdigit a \<and> isdigit b \<and> isdigit c)"
  by (cases s rule: match_digits.cases) auto

lemma re_search_digits_run:
  "re_search_digits s \<noteq> None \<Longrightarrow> contains_digit_run 3 s"
proof (induction s rule: re_search_digits.induct)
  case 1
  then show ?case by simp
next
  case (2 x xs)
  show ?case
  proof (cases "match_digits (x # xs)")
    case None
    with 2 have "contains_digit_run 3 xs" by simp
    then obtain pre run post where
      "xs = pre @ run @ post" "length run = 3" "list_all isdigit run"
      unfolding contains_digit_run_def by blast
    then have "x # xs = (x # pre) @ run @ post \<and> length run = 3 \<and> list_all isdigit run"
      by simp
    then show ?thesis unfolding contains_digit_run_def by blast
  next
    case (Some m)
    then have "match_digits (x # xs) \<noteq> None" by simp
    then obtain a b c rest where
      "x # xs = a # b # c # rest" "isdigit a" "isdigit b" "isdigit c"
      unfolding match_digits_Some_iff by blast
    then have "x # xs = [] @ [a, b, c] @ rest \<and> length [a, b, c] = 3
               \<and> list_all isdigit [a, b, c]"
      by simp
    then show ?thesis unfolding contains_digit_run_def by blast
  qed
qed

lemma run_re_search_digits:
  assumes "length run = 3" "list_all isdigit run"
  shows "re_search_digits (pre @ run @ post) \<noteq> None"
proof (induction pre)
  case Nil
  from assms obtain a b c where "run = [a, b, c]"
    by (cases run; cases "tl run"; cases "tl (tl run)") auto
  with assms show ?case by simp
next
  case (Cons p pre)
  then show ?case by (simp split: option.splits)
qed

lemma re_search_digits_None_iff:
  "re_search_digits s = None \<longleftrightarrow> \<not> contains_digit_run 3 s"
proof
  assume "re_search_digits s = None"
  then show "\<not> contains_digit_run 3 s"
    unfolding contains_digit_run_def using run_re_search_digits by blast
next
  assume "\<not> contains_digit_run 3 s"
  then show "re_search_digits s = None"
    using re_search_digits_run by blast
qed

lemma longer_run_contains_3:
  assumes "3 \<le> n" "contains_digit_run n s"
  shows "contains_digit_run 3 s"
proof -
  from assms obtain pre run post where
    s: "s = pre @ run @ post" and l: "length run = n" and d: "list_all isdigit run"
    unfolding contains_digit_run_def by blast
  have "run = take 3 run @ drop 3 run" by simp
  with s have "s = pre @ take 3 run @ (drop 3 run @ post)" by (metis append.assoc)
  moreover from l assms have "length (take 3 run) = 3" by simp
  moreover from d have "list_all isdigit (take 3 run)"
    by (metis append_take_drop_id list_all_append)
  ultimately show ?thesis unfolding contains_digit_run_def by blast
qed

text \<open>
  Claim C4. \<open>should_forward_message\<close> accepts exactly when the text of the message is
  not empty and the name contains a run of three or of four consecutive digits or the
  sender has a non-empty first name and a non-empty last name. The run is found anywhere
  in the name, so a name with five digits in a row is accepted too; a name without three
  digits in a row, from a sender without a last name, is rejected.
\<close>

theorem filter_criteria:
  "(should_forward_message msg s name \<longleftrightarrow>
      truthy (msg_text msg)
      \<and> ((contains_digit_run 3 name \<or> contains_digit_run 4 name)
         \<or> (truthy (first_name s) \<and> truthy (last_name s))))
   \<and> (truthy (msg_text msg) \<and> contains_digit_run 5 name \<longrightarrow> should_forward_message msg s name)
   \<and> (\<not> contains_digit_run 3 name \<and> \<not> truthy (last_name s) \<longrightarrow>
        \<not> should_forward_message msg s name)"
  using longer_run_contains_3 [of 4 name] longer_run_contains_3 [of 5 name]
  by (auto simp: should_forward_message_def Let_def re_search_digits_None_iff)

text \<open>
  The names built for three senders: \<open>Bob (@bob12)\<close> has two digits and no last name
  and is rejected, \<open>Bob (@bob12345)\<close> has five digits and no last name and is accepted,
  \<open>John Doe\<close> has no digit, a first and a last name, and is accepted.
\<close>

theorem filter_criteria_witness:
  "\<not> should_forward_message hello bob12 (build_sender_name bob12)
   \<and> should_forward_message hello bob12345 (build_sender_name bob12345)
   \<and> should_forward_message hello john (build_sender_name john)"
proof -
  have a: "\<not> contains_digit_run 3 ''Bob (@bob12)''"
    unfolding re_search_digits_None_iff [symmetric] by (simp add: isdigit_def Let_def)
  have b: "contains_digit_run 5 ''Bob (@bob12345)''"
    unfolding contains_digit_run_def
    by (rule exI [of _ "''Bob (@bob''"], rule exI [of _ "''12345''"], rule exI [of _ "'')''"])
       (simp add: isdigit_def Let_def)
  have l: "\<not> truthy (last_name bob12)" and t: "truthy (msg_text hello)"
    and f: "truthy (first_name john) \<and> truthy (last_name john)"
    by (simp_all add: bob12_def hello_def john_def truthy_def)
  from filter_criteria [of hello bob12 "''Bob (@bob12)''"] a l
  have "\<not> should_forward_message hello bob12 ''Bob (@bob12)''" by blast
  moreover from filter_criteria [of hello bob12345 "''Bob (@bob12345)''"] b t
  have "should_forward_message hello bob12345 ''Bob (@bob12345)''" by blast
  moreover from filter_criteria [of hello john "''John Doe''"] f t
  have "should_forward_message hello john ''John Doe''" by blast
  ultimately show ?thesis unfolding bob_names john_name by blast
qed

section \<open>Recently handled senders\<close>

lemma recently_handled_iff:
  "is_message_recently_handled cfg t u st \<longleftrightarrow>
   DUPLICATE_CHECK_ENABLED cfg
   \<and> tracked_since (t - real_of_int (DUPLICATE_IGNORE_DURATION cfg)) (str u) st"
  by (simp add: is_message_recently_handled_def tracked_since_def Let_def)

lemma track_ignored_tracked:
  assumes "DUPLICATE_CHECK_ENABLED cfg" "c < t"
  shows "tracked_since c (str u) (track_ignored_message cfg t w u n r st)"
  using assms
  by (simp add: track_ignored_message_def save_message_tracking_def tracked_since_def
        get_timestamp_def)

lemma track_collected_tracked:
  assumes "DUPLICATE_CHECK_ENABLED cfg" "c < t"
  shows "tracked_since c (str u) (track_collected_message cfg t w u n st)"
  using assms
  by (simp add: track_collected_message_def save_message_tracking_def tracked_since_def
        get_timestamp_def)

lemma track_ignored_keeps:
  assumes "tracked_since c k st" "c < t"
  shows "tracked_since c k (track_ignored_message cfg t w u n r st)"
  using assms
  by (auto simp: track_ignored_message_def save_message_tracking_def tracked_since_def
        get_timestamp_def)

lemma track_collected_keeps:
  assumes "tracked_since c k st" "c < t"
  shows "tracked_since c k (track_collected_message cfg t w u n st)"
  using assms
  by (auto simp: track_collected_message_def save_message_tracking_def tracked_since_def
        get_timestamp_def)

lemma mark_tracked [simp]:
  "tracked_since c k (mark_as_forwarded cfg t d w u n st) = tracked_since c k st"
  by (simp add: mark_as_forwarded_def save_daily_messages_def tracked_since_def Let_def)

lemma forward_tracked [simp]:
  "tracked_since c k (snd (forward_message_with_info e st)) = tracked_since c k st"
  by (simp add: forward_message_with_info_def tracked_since_def)

lemma cleanup_keeps:
  assumes "tracked_since c k st" "t - real_of_int (DUPLICATE_IGNORE_DURATION cfg) \<le> c"
  shows "tracked_since c k (cleanup_old_tracking_data cfg t w st)"
  using assms
  by (auto simp: cleanup_old_tracking_data_def save_message_tracking_def tracked_since_def
        keep_recent_def Let_def split: option.splits)

lemma forward_finish_tracked [simp]:
  "tracked_since c k (snd (forward_finish e had st)) = tracked_since c k st"
  by (simp add: forward_finish_def tracked_since_def)

text \<open>A call that nothing interrupts is its checks followed by its resumption.\<close>

lemma forward_message_with_info_finish:
  "forward_message_with_info e st = forward_finish e (bot_entity st) st"
  by (simp add: forward_message_with_info_def forward_finish_def)

lemma handle_new_message_parts:
  "handle_new_message cfg msg e st =
     (case handle_checks cfg msg e st of
        (Done out, st') \<Rightarrow> (out, st')
      | (Awaiting s had, st') \<Rightarrow> handle_resume cfg e s had st')"
  by (simp add: handle_new_message_def handle_checks_def handle_resume_def Let_def
        forward_message_with_info_finish split: sender_result.splits)

lemma checks_keeps:
  assumes "tracked_since c k st" "c < t_track e"
  shows "tracked_since c k (snd (handle_checks cfg msg e st))"
  using assms
  by (cases "get_sender e") (simp_all add: handle_checks_def Let_def track_ignored_keeps)

lemma resume_keeps:
  assumes "tracked_since c k st" "c < t_track e"
  shows "tracked_since c k (snd (handle_resume cfg e s had st))"
proof -
  obtain ok st1 where f: "forward_finish e had st = (ok, st1)"
    by (cases "forward_finish e had st")
  then have "st1 = snd (forward_finish e had st)" by simp
  with assms have "tracked_since c k st1" by simp
  with assms f show ?thesis
    by (cases ok)
       (simp_all add: handle_resume_def Let_def track_ignored_keeps track_collected_keeps)
qed

lemma resume_tracks:
  assumes "DUPLICATE_CHECK_ENABLED cfg" "c < t_track e"
  shows "tracked_since c (str (sender_id s)) (snd (handle_resume cfg e s had st))"
proof -
  obtain ok st1 where f: "forward_finish e had st = (ok, st1)"
    by (cases "forward_finish e had st")
  with assms show ?thesis
    by (cases ok)
       (simp_all add: handle_resume_def Let_def track_ignored_tracked track_collected_tracked)
qed

lemma checks_tracks:
  assumes "DUPLICATE_CHECK_ENABLED cfg" "get_sender e = Sender s" "c < t_track e"
    and "handle_checks cfg msg e st = (Done out, st')" "out \<noteq> SkippedRecent"
  shows "tracked_since c (str (sender_id s)) st'"
  using assms
  by (auto simp: handle_checks_def Let_def track_ignored_tracked split: if_splits)

lemma resume_not_skipped:
  "fst (handle_resume cfg e s had st) = Relayed
   \<or> fst (handle_resume cfg e s had st) = RelayFailed"
  by (cases "forward_finish e had st"; cases "fst (forward_finish e had st)")
     (simp_all add: handle_resume_def Let_def)

lemma finishes_tracks:
  assumes "DUPLICATE_CHECK_ENABLED cfg" "finishes cfg msg e s st out st'"
    and "out \<noteq> SkippedRecent" "c < t_track e"
  shows "tracked_since c (str (sender_id s)) st'"
  using assms checks_tracks [of cfg e s c msg st out st']
    resume_tracks [of cfg c e s True st] resume_tracks [of cfg c e s False st]
  unfolding finishes_def by auto

lemma step_keeps:
  assumes "tracked_since c k (fwd sys)" "\<not> is_restart x" "clock_between lo hi x"
    and "c < lo" "hi - real_of_int (DUPLICATE_IGNORE_DURATION cfg) \<le> c"
  shows "tracked_since c k (fwd (exec_step cfg sys x))"
proof (cases x)
  case (Message msg e)
  with assms have "tracked_since c k (snd (handle_checks cfg msg e (fwd sys)))"
    by (simp add: checks_keeps)
  with Message show ?thesis
    by (cases "handle_checks cfg msg e (fwd sys)"; cases "fst (handle_checks cfg msg e (fwd sys))")
       simp_all
next
  case (Resume i e)
  with assms show ?thesis
    by (cases "waiting sys ! i") (simp add: resume_keeps)
next
  case (Cleanup t w)
  with assms show ?thesis by (simp add: cleanup_keeps)
next
  case (Restart day t w)
  with assms show ?thesis by simp
qed

lemma exec_keeps:
  assumes "\<forall>x\<in>set steps. \<not> is_restart x" "\<forall>x\<in>set steps. clock_between lo hi x"
    and "c < lo" "hi - real_of_int (DUPLICATE_IGNORE_DURATION cfg) \<le> c"
  shows "tracked_since c k (fwd sys) \<Longrightarrow> tracked_since c k (fwd (exec cfg sys steps))"
  using assms(1,2) unfolding exec_def
proof (induction steps arbitrary: sys)
  case Nil
  then show ?case by simp
next
  case (Cons x steps)
  from Cons.prems assms(3,4) have "tracked_since c k (fwd (exec_step cfg sys x))"
    by (intro step_keeps [where lo = lo and hi = hi]) simp_all
  with Cons show ?case by simp
qed

lemma track_ignored_disk:
  assumes "DUPLICATE_CHECK_ENABLED cfg"
  shows "tracking_on_disk (track_ignored_message cfg t Written u n r st)"
  using assms
  by (simp add: track_ignored_message_def save_message_tracking_def tracking_on_disk_def
        write_file_def)

lemma track_collected_disk:
  assumes "DUPLICATE_CHECK_ENABLED cfg"
  shows "tracking_on_disk (track_collected_message cfg t Written u n st)"
  using assms
  by (simp add: track_collected_message_def save_message_tracking_def tracking_on_disk_def
        write_file_def)

lemma cleanup_disk:
  assumes "DUPLICATE_CHECK_ENABLED cfg"
  shows "tracking_on_disk (cleanup_old_tracking_data cfg t Written st)"
  using assms
  by (simp add: cleanup_old_tracking_data_def save_message_tracking_def tracking_on_disk_def
        write_file_def Let_def)

lemma checks_disk:
  assumes "DUPLICATE_CHECK_ENABLED cfg" "tracking_write e = Written" "tracking_on_disk st"
  shows "tracking_on_disk (snd (handle_checks cfg msg e st))"
  using assms
  by (cases "get_sender e") (simp_all add: handle_checks_def Let_def track_ignored_disk)

lemma resume_disk:
  assumes "DUPLICATE_CHECK_ENABLED cfg" "tracking_write e = Written"
  shows "tracking_on_disk (snd (handle_resume cfg e s had st))"
proof -
  obtain ok st1 where f: "forward_finish e had st = (ok, st1)"
    by (cases "forward_finish e had st")
  with assms show ?thesis
    by (cases ok)
       (simp_all add: handle_resume_def Let_def track_ignored_disk track_collected_disk)
qed

lemma finishes_disk:
  assumes "DUPLICATE_CHECK_ENABLED cfg" "tracking_write e = Written"
    and "finishes cfg msg e s st out st'" "out \<noteq> SkippedRecent"
  shows "tracking_on_disk st'"
proof -
  from assms(3) consider
      (checks) "get_sender e = Sender s" "handle_checks cfg msg e st = (Done out, st')"
    | (resume) had where "handle_resume cfg e s had st = (out, st')"
    unfolding finishes_def by blast
  then show ?thesis
  proof cases
    case checks
    with assms(1,2,4) show ?thesis
      by (auto simp: handle_checks_def Let_def track_ignored_disk split: if_splits)
  next
    case resume
    then have "st' = snd (handle_resume cfg e s had st)" by simp
    with assms(1,2) show ?thesis by (simp add: resume_disk)
  qed
qed

lemma init_tracked:
  assumes "tracked_since c k st" "tracking_on_disk st"
    and "t - real_of_int (DUPLICATE_IGNORE_DURATION cfg) \<le> c"
  shows "tracked_since c k
           (init cfg day t w (daily_messages_file st) (message_tracking_file st))"
proof -
  from assms(1,2) have "tracked_since c k
     \<lparr>bot_entity = False,
      forwarded_today = load_daily_messages day (daily_messages_file st),
      message_tracking = load_message_tracking (message_tracking_file st),
      daily_messages_file = daily_messages_file st,
      message_tracking_file = message_tracking_file st\<rparr>"
    by (simp add: tracked_since_def tracking_on_disk_def load_message_tracking_def)
  from this assms(3) show ?thesis unfolding init_def by (rule cleanup_keeps)
qed

lemma step_keeps_saved:
  assumes "DUPLICATE_CHECK_ENABLED cfg"
    and "tracked_since c k (fwd sys) \<and> tracking_on_disk (fwd sys)"
    and "tracking_saved x" "clock_between lo hi x"
    and "c < lo" "hi - real_of_int (DUPLICATE_IGNORE_DURATION cfg) \<le> c"
  shows "tracked_since c k (fwd (exec_step cfg sys x))
         \<and> tracking_on_disk (fwd (exec_step cfg sys x))"
proof (cases x)
  case (Message msg e)
  with assms have "tracked_since c k (snd (handle_checks cfg msg e (fwd sys)))
                   \<and> tracking_on_disk (snd (handle_checks cfg msg e (fwd sys)))"
    by (simp add: checks_keeps checks_disk)
  with Message show ?thesis
    by (cases "handle_checks cfg msg e (fwd sys)"; cases "fst (handle_checks cfg msg e (fwd sys))")
       simp_all
next
  case (Resume i e)
  with assms show ?thesis
    by (cases "waiting sys ! i") (simp add: resume_keeps resume_disk)
next
  case (Cleanup t w)
  with assms show ?thesis by (simp add: cleanup_keeps cleanup_disk)
next
  case (Restart day t w)
  with assms have "tracked_since c k (fwd (exec_step cfg sys x))" by (simp add: init_tracked)
  moreover from Restart assms have "tracking_on_disk (fwd (exec_step cfg sys x))"
    by (simp add: init_def cleanup_disk)
  ultimately show ?thesis by simp
qed

lemma exec_keeps_saved:
  assumes "DUPLICATE_CHECK_ENABLED cfg"
    and "\<forall>x\<in>set steps. tracking_saved x" "\<forall>x\<in>set steps. clock_between lo hi x"
    and "c < lo" "hi - real_of_int (DUPLICATE_IGNORE_DURATION cfg) \<le> c"
  shows "tracked_since c k (fwd sys) \<and> tracking_on_disk (fwd sys) \<Longrightarrow>
         tracked_since c k (fwd (exec cfg sys steps))
         \<and> tracking_on_disk (fwd (exec cfg sys steps))"
  using assms(2,3) unfolding exec_def
proof (induction steps arbitrary: sys)
  case Nil
  then show ?case by simp
next
  case (Cons x steps)
  from Cons.prems assms(1,4,5)
  have "tracked_since c k (fwd (exec_step cfg sys x))
        \<and> tracking_on_disk (fwd (exec_step cfg sys x))"
    by (intro step_keeps_saved [where lo = lo and hi = hi]) simp_all
  with Cons show ?case by simp
qed

text \<open>
  Claim C5, as amended. Tracking is enabled. A call for a message of sender S has come to
  its end, at its checks or when resumed after the delivery, and the clock read at its
  checks is \<open>t1\<close>. Afterwards any handlers may start and be resumed and any cleanups may
  run, and the process may start again when every write of the tracking file has
  succeeded; the clock does not run backwards. Then a message of S whose checks are made
  less than the retention window after \<open>t1\<close> makes no relay attempt if the first call
  made one: unless the first call was itself skipped as recently handled, it has left an
  entry, ignored or collected, and the second message stops at the recently-handled
  check. A first call skipped at that check changes nothing. Nothing is said of a message
  of S that is checked while the first call is still suspended in the delivery.
\<close>

theorem one_attempt_within_window:
  assumes en: "DUPLICATE_CHECK_ENABLED cfg"
    and fin: "finishes cfg msg1 e1 s1 st0 out1 st1"
    and s2: "get_sender e2 = Sender s2" and same: "sender_id s1 = sender_id s2"
    and sys: "fwd sys = st1"
    and mid: "(\<forall>x\<in>set mid. \<not> is_restart x)
              \<or> (tracking_write e1 = Written \<and> (\<forall>x\<in>set mid. tracking_saved x))"
    and clock: "\<forall>x\<in>set mid. clock_between t1 (t_check e2) x"
    and mono: "t1 \<le> t_track e1"
    and near: "t_check e2 - t1 < real_of_int (DUPLICATE_IGNORE_DURATION cfg)"
    and h2: "handle_checks cfg msg2 e2 (fwd (exec cfg sys mid)) = (p2, st3)"
  shows "\<not> (relay_attempt out1 \<and> attempts p2)
       \<and> (out1 \<noteq> SkippedRecent \<longrightarrow> p2 = Done SkippedRecent \<and> st3 = fwd (exec cfg sys mid))
       \<and> (out1 = SkippedRecent \<longrightarrow>
            st1 = st0 \<and> is_message_recently_handled cfg (t_check e1) (sender_id s1) st0)"
proof -
  define c where "c = t_check e2 - real_of_int (DUPLICATE_IGNORE_DURATION cfg)"
  define k where "k = str (sender_id s1)"
  have lo: "c < t1"
    and hi: "t_check e2 - real_of_int (DUPLICATE_IGNORE_DURATION cfg) \<le> c"
    using near by (simp_all add: c_def)
  have skipped: "p2 = Done SkippedRecent \<and> st3 = fwd (exec cfg sys mid)"
    if ne: "out1 \<noteq> SkippedRecent"
  proof -
    from lo mono have lt: "c < t_track e1" by simp
    from finishes_tracks [OF en fin ne lt] sys have t1: "tracked_since c k (fwd sys)"
      by (simp add: k_def)
    from mid have "tracked_since c k (fwd (exec cfg sys mid))"
    proof
      assume "\<forall>x\<in>set mid. \<not> is_restart x"
      from exec_keeps [OF this clock lo hi t1] show ?thesis .
    next
      assume a: "tracking_write e1 = Written \<and> (\<forall>x\<in>set mid. tracking_saved x)"
      from finishes_disk [OF en _ fin ne] a sys have "tracking_on_disk (fwd sys)"
        by simp
      with t1 exec_keeps_saved [OF en _ clock lo hi, of k sys] a show ?thesis by blast
    qed
    then have "is_message_recently_handled cfg (t_check e2) (sender_id s2)
                 (fwd (exec cfg sys mid))"
      using en same by (simp add: recently_handled_iff c_def k_def)
    with h2 s2 show ?thesis by (simp add: handle_checks_def Let_def)
  qed
  have unchanged: "st1 = st0 \<and> is_message_recently_handled cfg (t_check e1) (sender_id s1) st0"
    if sk: "out1 = SkippedRecent"
  proof -
    from sk resume_not_skipped [of cfg e1 s1 True st0] resume_not_skipped [of cfg e1 s1 False st0]
    have "handle_resume cfg e1 s1 True st0 \<noteq> (out1, st1)"
      and "handle_resume cfg e1 s1 False st0 \<noteq> (out1, st1)"
      by auto
    with fin have "get_sender e1 = Sender s1"
      and "handle_checks cfg msg1 e1 st0 = (Done SkippedRecent, st1)"
      using sk unfolding finishes_def by auto
    then show ?thesis
      by (auto simp: handle_checks_def Let_def split: if_splits)
  qed
  from skipped unchanged show ?thesis by (auto simp: relay_attempt_def)
qed

text \<open>
  The call for the message of \<open>john\<close> at clock 0 is resumed with a failed delivery and
  records him as ignored; a cleanup and a new start of the process follow; his message at
  clock 1800 stops at the recently-handled check.
\<close>

theorem one_attempt_within_window_witness:
  "DUPLICATE_CHECK_ENABLED cfg_on
   \<and> finishes cfg_on hello (at_time 0 ''2024-01-01'' False) john fresh RelayFailed failed_at_0
   \<and> get_sender (at_time 1800 ''2024-01-01'' True) = Sender john
   \<and> tracking_write (at_time 0 ''2024-01-01'' False) = Written
   \<and> list_all tracking_saved between
   \<and> list_all (clock_between 0 (t_check (at_time 1800 ''2024-01-01'' True))) between
   \<and> 0 \<le> t_track (at_time 0 ''2024-01-01'' False)
   \<and> t_check (at_time 1800 ''2024-01-01'' True) - 0
       < real_of_int (DUPLICATE_IGNORE_DURATION cfg_on)
   \<and> fst (handle_checks cfg_on hello (at_time 1800 ''2024-01-01'' True)
            (fwd (exec cfg_on (idle failed_at_0) between))) = Done SkippedRecent"
proof -
  let ?e1 = "at_time 0 ''2024-01-01'' False" and ?e2 = "at_time 1800 ''2024-01-01'' True"
  let ?st2 = "fwd (exec cfg_on (idle failed_at_0) between)"
  have en: "DUPLICATE_CHECK_ENABLED cfg_on"
    by (simp add: cfg_on_def)
  have s2: "get_sender ?e2 = Sender john"
    by (simp add: at_time_def)
  have "handle_checks cfg_on hello ?e1 fresh = (Awaiting john False, fresh)"
    by (simp add: handle_checks_def example_simps)
  then have "handle_resume cfg_on ?e1 john False fresh = handle_new_message cfg_on hello ?e1 fresh"
    by (simp add: handle_new_message_parts)
  with failed_at_0_facts(1)
  have fin: "finishes cfg_on hello ?e1 john fresh RelayFailed failed_at_0"
    by (simp add: finishes_def failed_at_0_def prod_eq_iff)
  have sys: "fwd (idle failed_at_0) = failed_at_0"
    by (simp add: idle_def)
  have w: "tracking_write ?e1 = Written" and saved: "list_all tracking_saved between"
    and clock: "list_all (clock_between 0 (t_check ?e2)) between"
    and mono: "0 \<le> t_track ?e1"
    and near: "t_check ?e2 - 0 < real_of_int (DUPLICATE_IGNORE_DURATION cfg_on)"
    by (simp_all add: at_time_def between_def cfg_on_def)
  have mid: "(\<forall>x\<in>set between. \<not> is_restart x)
             \<or> (tracking_write ?e1 = Written \<and> (\<forall>x\<in>set between. tracking_saved x))"
    using w saved by (simp add: list_all_iff)
  have clock': "\<forall>x\<in>set between. clock_between 0 (t_check ?e2) x"
    using clock by (simp add: list_all_iff)
  have h2: "handle_checks cfg_on hello ?e2 ?st2
              = (fst (handle_checks cfg_on hello ?e2 ?st2),
                 snd (handle_checks cfg_on hello ?e2 ?st2))"
    by simp
  from one_attempt_within_window [OF en fin s2 refl sys mid clock' mono near h2]
  have "fst (handle_checks cfg_on hello ?e2 ?st2) = Done SkippedRecent"
    by simp
  with en fin s2 w saved clock mono near show ?thesis
    by simp
qed

text \<open>
  Claim C5 as it is written fails, with tracking enabled and a window of 3600 seconds,
  in three runs. Two messages of \<open>john\<close> are checked one second apart, the second while
  the first call is suspended in the delivery: both reach the delivery. A failed delivery
  at clock 0 writes its entry to memory but not to the file, the process starts again,
  and his message at clock 20 reaches the delivery. A failed delivery checked at clock 0
  is stamped after the clock was set back, and his message at clock 10 reaches the
  delivery.
\<close>

theorem two_attempts_within_window:
  "DUPLICATE_CHECK_ENABLED cfg_on
   \<and> waiting two_waiting = [(john, False), (john, False)]
   \<and> t_check (at_time 1 ''2024-01-01'' True) - t_check (at_time 0 ''2024-01-01'' True)
       < real_of_int (DUPLICATE_IGNORE_DURATION cfg_on)
   \<and> fst (handle_resume cfg_on tracking_unsaved john False fresh) = RelayFailed
   \<and> fst (handle_checks cfg_on hello (at_time 20 ''2024-01-01'' True)
            restarted_tracking_unsaved) = Awaiting john False
   \<and> fst (handle_resume cfg_on clock_set_back john False fresh) = RelayFailed
   \<and> fst (handle_checks cfg_on hello (at_time 10 ''2024-01-01'' True) after_clock_set_back)
       = Awaiting john False"
proof -
  have a: "waiting two_waiting = [(john, False), (john, False)]"
    by (simp add: two_waiting_def exec_def idle_def handle_checks_def example_simps)
  have b: "fst (handle_resume cfg_on tracking_unsaved john False fresh) = RelayFailed"
    and c: "fst (handle_resume cfg_on clock_set_back john False fresh) = RelayFailed"
    by (simp_all add: handle_resume_def forward_finish_def tracking_unsaved_def
          clock_set_back_def example_simps)
  have d: "fst (handle_checks cfg_on hello (at_time 20 ''2024-01-01'' True)
                  restarted_tracking_unsaved) = Awaiting john False"
    by (simp add: restarted_tracking_unsaved_def tracking_unsaved_def exec_def idle_def
          handle_checks_def handle_resume_def forward_finish_def init_def
          cleanup_old_tracking_data_def load_daily_messages_def load_message_tracking_def
          keep_recent_def example_simps)
  have e: "fst (handle_checks cfg_on hello (at_time 10 ''2024-01-01'' True)
                  after_clock_set_back) = Awaiting john False"
    by (simp add: after_clock_set_back_def clock_set_back_def exec_def idle_def
          handle_checks_def handle_resume_def forward_finish_def example_simps)
  from a b c d e show ?thesis
    by (simp add: cfg_on_def at_time_def)
qed

section \<open>The daily record\<close>

lemma track_ignored_daily [simp]:
  "forwarded_today (track_ignored_message cfg t w u n r st) = forwarded_today st"
  "daily_messages_file (track_ignored_message cfg t w u n r st) = daily_messages_file st"
  by (simp_all add: track_ignored_message_def save_message_tracking_def)

lemma track_collected_daily [simp]:
  "forwarded_today (track_collected_message cfg t w u n st) = forwarded_today st"
  "daily_messages_file (track_collected_message cfg t w u n st) = daily_messages_file st"
  by (simp_all add: track_collected_message_def save_message_tracking_def)

lemma cleanup_daily [simp]:
  "forwarded_today (cleanup_old_tracking_data cfg t w st) = forwarded_today st"
  "daily_messages_file (cleanup_old_tracking_data cfg t w st) = daily_messages_file st"
  by (simp_all add: cleanup_old_tracking_data_def save_message_tracking_def Let_def)

lemma forward_daily [simp]:
  "forwarded_today (snd (forward_message_with_info e st)) = forwarded_today st"
  "daily_messages_file (snd (forward_message_with_info e st)) = daily_messages_file st"
  by (simp_all add: forward_message_with_info_def)

lemma mark_daily:
  "forwarded_today (mark_as_forwarded cfg t d w u n st) =
     (forwarded_today st)(str u \<mapsto> \<lparr>de_name = n, de_time = strftime cfg t\<rparr>)"
  "daily_messages_file (mark_as_forwarded cfg t d w u n st) =
     write_file w
       \<lparr>dd_date = Some d,
        dd_forwarded_users =
          Some ((forwarded_today st)(str u \<mapsto> \<lparr>de_name = n, de_time = strftime cfg t\<rparr>))\<rparr>
       (daily_messages_file st)"
  by (simp_all add: mark_as_forwarded_def save_daily_messages_def Let_def)

lemma forward_finish_daily [simp]:
  "forwarded_today (snd (forward_finish e had st)) = forwarded_today st"
  "daily_messages_file (snd (forward_finish e had st)) = daily_messages_file st"
  by (simp_all add: forward_finish_def)

lemma checks_daily [simp]:
  "forwarded_today (snd (handle_checks cfg msg e st)) = forwarded_today st"
  "daily_messages_file (snd (handle_checks cfg msg e st)) = daily_messages_file st"
  by (cases "get_sender e"; simp add: handle_checks_def Let_def)+

lemma resume_daily:
  "forwarded_today (snd (handle_resume cfg e s had st)) =
     (if fst (handle_resume cfg e s had st) = Relayed
      then (forwarded_today st)(str (sender_id s) \<mapsto>
             \<lparr>de_name = build_sender_name s, de_time = strftime cfg (t_mark e)\<rparr>)
      else forwarded_today st)"
  "daily_messages_file (snd (handle_resume cfg e s had st)) =
     (if fst (handle_resume cfg e s had st) = Relayed
      then write_file (daily_write e)
             \<lparr>dd_date = Some (today e),
              dd_forwarded_users = Some (forwarded_today (snd (handle_resume cfg e s had st)))\<rparr>
             (daily_messages_file st)
      else daily_messages_file st)"
proof -
  obtain ok st1 where f: "forward_finish e had st = (ok, st1)"
    by (cases "forward_finish e had st")
  then have st1: "forwarded_today st1 = forwarded_today st"
    "daily_messages_file st1 = daily_messages_file st"
    using forward_finish_daily [of e had st] by simp_all
  from f st1
  show "forwarded_today (snd (handle_resume cfg e s had st)) =
     (if fst (handle_resume cfg e s had st) = Relayed
      then (forwarded_today st)(str (sender_id s) \<mapsto>
             \<lparr>de_name = build_sender_name s, de_time = strftime cfg (t_mark e)\<rparr>)
      else forwarded_today st)"
    by (cases ok) (simp_all add: handle_resume_def Let_def mark_daily)
  from f st1
  show "daily_messages_file (snd (handle_resume cfg e s had st)) =
     (if fst (handle_resume cfg e s had st) = Relayed
      then write_file (daily_write e)
             \<lparr>dd_date = Some (today e),
              dd_forwarded_users = Some (forwarded_today (snd (handle_resume cfg e s had st)))\<rparr>
             (daily_messages_file st)
      else daily_messages_file st)"
    by (cases ok) (simp_all add: handle_resume_def Let_def mark_daily)
qed

lemma finishes_daily:
  assumes "finishes cfg msg e s st out st'"
  shows "forwarded_today st' =
           (if out = Relayed
            then (forwarded_today st)(str (sender_id s) \<mapsto>
                   \<lparr>de_name = build_sender_name s, de_time = strftime cfg (t_mark e)\<rparr>)
            else forwarded_today st)"
    and "daily_messages_file st' =
           (if out = Relayed
            then write_file (daily_write e)
                   \<lparr>dd_date = Some (today e), dd_forwarded_users = Some (forwarded_today st')\<rparr>
                   (daily_messages_file st)
            else daily_messages_file st)"
proof -
  from assms consider
      (checks) "get_sender e = Sender s" "handle_checks cfg msg e st = (Done out, st')"
    | (resume) had where "handle_resume cfg e s had st = (out, st')"
    unfolding finishes_def by blast
  then have "forwarded_today st' =
           (if out = Relayed
            then (forwarded_today st)(str (sender_id s) \<mapsto>
                   \<lparr>de_name = build_sender_name s, de_time = strftime cfg (t_mark e)\<rparr>)
            else forwarded_today st)
        \<and> daily_messages_file st' =
           (if out = Relayed
            then write_file (daily_write e)
                   \<lparr>dd_date = Some (today e), dd_forwarded_users = Some (forwarded_today st')\<rparr>
                   (daily_messages_file st)
            else daily_messages_file st)"
  proof cases
    case checks
    from checks(2) have o: "out \<noteq> Relayed"
      by (auto simp: handle_checks_def Let_def split: sender_result.splits if_splits)
    from checks(2) have "st' = snd (handle_checks cfg msg e st)" by simp
    with o show ?thesis by simp
  next
    case resume
    then have "out = fst (handle_resume cfg e s had st)"
      and "st' = snd (handle_resume cfg e s had st)" by simp_all
    with resume_daily [of cfg e s had st] show ?thesis by simp
  qed
  then show "forwarded_today st' =
           (if out = Relayed
            then (forwarded_today st)(str (sender_id s) \<mapsto>
                   \<lparr>de_name = build_sender_name s, de_time = strftime cfg (t_mark e)\<rparr>)
            else forwarded_today st)"
    and "daily_messages_file st' =
           (if out = Relayed
            then write_file (daily_write e)
                   \<lparr>dd_date = Some (today e), dd_forwarded_users = Some (forwarded_today st')\<rparr>
                   (daily_messages_file st)
            else daily_messages_file st)"
    by simp_all
qed

lemma step_forwarded_mono:
  assumes "k \<in> dom (forwarded_today (fwd sys))" "\<not> is_restart x"
  shows "k \<in> dom (forwarded_today (fwd (exec_step cfg sys x)))"
proof (cases x)
  case (Message msg e)
  from assms have "k \<in> dom (forwarded_today (snd (handle_checks cfg msg e (fwd sys))))"
    by simp
  with Message show ?thesis
    by (cases "handle_checks cfg msg e (fwd sys)"; cases "fst (handle_checks cfg msg e (fwd sys))")
       simp_all
next
  case (Resume i e)
  with assms show ?thesis
    by (cases "waiting sys ! i") (simp add: resume_daily)
next
  case (Cleanup t w)
  with assms show ?thesis by simp
next
  case (Restart day t w)
  with assms show ?thesis by simp
qed

lemma exec_forwarded_mono:
  assumes "\<forall>x\<in>set steps. \<not> is_restart x"
  shows "k \<in> dom (forwarded_today (fwd sys)) \<Longrightarrow>
         k \<in> dom (forwarded_today (fwd (exec cfg sys steps)))"
  using assms unfolding exec_def
  by (induction steps arbitrary: sys) (simp_all add: step_forwarded_mono)

lemma resume_daily_on_disk:
  assumes "k \<in> dom (forwarded_today st)" "daily_on_disk d k st"
    and "today e = d" "daily_write e = Written"
  shows "k \<in> dom (forwarded_today (snd (handle_resume cfg e s had st)))
         \<and> daily_on_disk d k (snd (handle_resume cfg e s had st))"
  using resume_daily [of cfg e s had st] assms
  by (simp add: daily_on_disk_def write_file_def)

lemma init_daily:
  assumes "daily_on_disk d k st"
  shows "k \<in> dom (forwarded_today
                   (init cfg d t w (daily_messages_file st) (message_tracking_file st)))"
    and "daily_on_disk d k
           (init cfg d t w (daily_messages_file st) (message_tracking_file st))"
  using assms
  by (auto simp: init_def daily_on_disk_def load_daily_messages_def
        split: json_file.splits option.splits)

lemma step_daily:
  assumes "k \<in> dom (forwarded_today (fwd sys)) \<and> daily_on_disk d k (fwd sys)"
    and "same_day_saved d x"
  shows "k \<in> dom (forwarded_today (fwd (exec_step cfg sys x)))
         \<and> daily_on_disk d k (fwd (exec_step cfg sys x))"
proof (cases x)
  case (Message msg e)
  from assms have "k \<in> dom (forwarded_today (snd (handle_checks cfg msg e (fwd sys))))
                   \<and> daily_on_disk d k (snd (handle_checks cfg msg e (fwd sys)))"
    by (simp add: daily_on_disk_def)
  with Message show ?thesis
    by (cases "handle_checks cfg msg e (fwd sys)"; cases "fst (handle_checks cfg msg e (fwd sys))")
       simp_all
next
  case (Resume i e)
  obtain s had where "waiting sys ! i = (s, had)"
    by (cases "waiting sys ! i")
  with Resume assms resume_daily_on_disk [of k "fwd sys" d e cfg s had] show ?thesis
    by simp
next
  case (Cleanup t w)
  with assms show ?thesis by (simp add: daily_on_disk_def)
next
  case (Restart day t w)
  with assms show ?thesis by (simp add: init_daily)
qed

lemma exec_daily:
  assumes "\<forall>x\<in>set steps. same_day_saved d x"
  shows "k \<in> dom (forwarded_today (fwd sys)) \<and> daily_on_disk d k (fwd sys) \<Longrightarrow>
         k \<in> dom (forwarded_today (fwd (exec cfg sys steps)))
         \<and> daily_on_disk d k (fwd (exec cfg sys steps))"
  using assms unfolding exec_def
proof (induction steps arbitrary: sys)
  case Nil
  then show ?case by simp
next
  case (Cons x steps)
  then have "k \<in> dom (forwarded_today (fwd (exec_step cfg sys x)))
             \<and> daily_on_disk d k (fwd (exec_step cfg sys x))"
    by (intro step_daily) simp_all
  with Cons show ?case by simp
qed

text \<open>
  Claim C1, as amended. The handler marks a sender in \<open>forwarded_today\<close> only when a
  call is resumed after a successful delivery, never at its checks. Once a delivered
  message of sender S has been marked, a message of S that is checked afterwards makes no
  relay attempt: it is skipped as recently handled or as already forwarded today. This
  holds whatever handlers start and are resumed and whatever cleanups run in between,
  and across new starts of the process when the steps in between happen on the date of
  the delivery and the writes of the daily file succeed. So of the messages of S whose
  calls do not overlap, at most one is delivered on a date. Nothing is said of a message
  of S that is checked while an earlier call for S is still suspended in the delivery.
\<close>

theorem one_relay_per_sender_per_day:
  assumes fin: "finishes cfg msg1 e1 s1 st0 out1 st1"
    and s2: "get_sender e2 = Sender s2" and same: "sender_id s1 = sender_id s2"
    and sys: "fwd sys = st1"
    and mid: "(\<forall>x\<in>set mid. \<not> is_restart x)
              \<or> (daily_write e1 = Written \<and> (\<forall>x\<in>set mid. same_day_saved (today e1) x))"
    and h2: "handle_checks cfg msg2 e2 (fwd (exec cfg sys mid)) = (p2, st3)"
  shows "\<not> (out1 = Relayed \<and> attempts p2)
       \<and> (out1 = Relayed \<longrightarrow> p2 = Done SkippedRecent \<or> p2 = Done SkippedDaily)
       \<and> (out1 = Relayed \<longrightarrow> has_forwarded_today (sender_id s1) st1)
       \<and> (out1 \<noteq> Relayed \<longrightarrow> forwarded_today st1 = forwarded_today st0)
       \<and> forwarded_today st3 = forwarded_today (fwd (exec cfg sys mid))"
proof -
  define k where "k = str (sender_id s1)"
  have keep: "forwarded_today st1 = forwarded_today st0" if "out1 \<noteq> Relayed"
    using that finishes_daily(1) [OF fin] by simp
  have marked: "k \<in> dom (forwarded_today (fwd sys))" if "out1 = Relayed"
    using that finishes_daily(1) [OF fin] sys by (simp add: k_def)
  have skipped: "p2 = Done SkippedRecent \<or> p2 = Done SkippedDaily" if r: "out1 = Relayed"
  proof -
    from mid have "k \<in> dom (forwarded_today (fwd (exec cfg sys mid)))"
    proof
      assume "\<forall>x\<in>set mid. \<not> is_restart x"
      from exec_forwarded_mono [OF this marked [OF r]] show ?thesis .
    next
      assume a: "daily_write e1 = Written \<and> (\<forall>x\<in>set mid. same_day_saved (today e1) x)"
      from finishes_daily [OF fin] r a sys
      have "daily_on_disk (today e1) k (fwd sys)"
        by (simp add: daily_on_disk_def write_file_def k_def)
      with exec_daily [of mid "today e1" k sys cfg] a marked [OF r] show ?thesis by blast
    qed
    then have "has_forwarded_today (sender_id s2) (fwd (exec cfg sys mid))"
      using same by (simp add: has_forwarded_today_def k_def)
    with h2 s2 show ?thesis
      by (auto simp: handle_checks_def Let_def split: if_splits)
  qed
  have checked: "forwarded_today st3 = forwarded_today (fwd (exec cfg sys mid))"
    using h2 checks_daily(1) [of cfg msg2 e2 "fwd (exec cfg sys mid)"] by simp
  from keep marked skipped checked sys show ?thesis
    by (auto simp: has_forwarded_today_def k_def)
qed

text \<open>
  The call for the message of \<open>john\<close> at clock 0 is resumed with a successful delivery; a
  cleanup and a new start of the process on the same date follow; his message two hours
  later, with the window of one hour long past, makes no relay attempt.
\<close>

theorem one_relay_per_sender_per_day_witness:
  "finishes cfg_on hello (at_time 0 ''2024-01-01'' True) john fresh Relayed relayed_at_0
   \<and> get_sender (at_time 7200 ''2024-01-01'' True) = Sender john
   \<and> daily_write (at_time 0 ''2024-01-01'' True) = Written
   \<and> list_all (same_day_saved (today (at_time 0 ''2024-01-01'' True))) between
   \<and> has_forwarded_today (sender_id john) relayed_at_0
   \<and> (fst (handle_checks cfg_on hello (at_time 7200 ''2024-01-01'' True)
             (fwd (exec cfg_on (idle relayed_at_0) between))) = Done SkippedRecent
      \<or> fst (handle_checks cfg_on hello (at_time 7200 ''2024-01-01'' True)
               (fwd (exec cfg_on (idle relayed_at_0) between))) = Done SkippedDaily)"
proof -
  let ?e1 = "at_time 0 ''2024-01-01'' True" and ?e2 = "at_time 7200 ''2024-01-01'' True"
  let ?st2 = "fwd (exec cfg_on (idle relayed_at_0) between)"
  have s2: "get_sender ?e2 = Sender john"
    by (simp add: at_time_def)
  have "handle_checks cfg_on hello ?e1 fresh = (Awaiting john False, fresh)"
    by (simp add: handle_checks_def example_simps)
  then have "handle_resume cfg_on ?e1 john False fresh = handle_new_message cfg_on hello ?e1 fresh"
    by (simp add: handle_new_message_parts)
  with relayed_at_0_facts(1)
  have fin: "finishes cfg_on hello ?e1 john fresh Relayed relayed_at_0"
    by (simp add: finishes_def relayed_at_0_def prod_eq_iff)
  have sys: "fwd (idle relayed_at_0) = relayed_at_0"
    by (simp add: idle_def)
  have w: "daily_write ?e1 = Written"
    and saved: "list_all (same_day_saved (today ?e1)) between"
    by (simp_all add: at_time_def between_def)
  have mid: "(\<forall>x\<in>set between. \<not> is_restart x)
             \<or> (daily_write ?e1 = Written
                \<and> (\<forall>x\<in>set between. same_day_saved (today ?e1) x))"
    using w saved by (simp add: list_all_iff)
  have h2: "handle_checks cfg_on hello ?e2 ?st2
              = (fst (handle_checks cfg_on hello ?e2 ?st2),
                 snd (handle_checks cfg_on hello ?e2 ?st2))"
    by simp
  from one_relay_per_sender_per_day [OF fin s2 refl sys mid h2]
  have "has_forwarded_today (sender_id john) relayed_at_0
        \<and> (fst (handle_checks cfg_on hello ?e2 ?st2) = Done SkippedRecent
           \<or> fst (handle_checks cfg_on hello ?e2 ?st2) = Done SkippedDaily)"
    by simp
  with fin s2 w saved show ?thesis
    by simp
qed

text \<open>
  Claim C1 as it is written fails in two runs, both on 1 January. Two messages of
  \<open>john\<close> are checked while neither is marked, the second while the first call is
  suspended in the delivery; both calls are resumed with a successful delivery, and he is
  delivered twice. A delivery at clock 0 marks him in memory but its write of the daily
  file fails, the process starts again on the same date, and his message at clock 7200,
  with the window of 3600 seconds expired, is delivered again.
\<close>

theorem two_relays_on_one_day:
  "waiting two_waiting = [(john, False), (john, False)]
   \<and> fst (handle_resume cfg_on (at_time 2 ''2024-01-01'' True) john False (fwd two_waiting))
       = Relayed
   \<and> waiting first_resumed = [(john, False)]
   \<and> fst (handle_resume cfg_on (at_time 3 ''2024-01-01'' True) john False (fwd first_resumed))
       = Relayed
   \<and> today (at_time 2 ''2024-01-01'' True) = today (at_time 3 ''2024-01-01'' True)
   \<and> fst (handle_resume cfg_on daily_unsaved john False fresh) = Relayed
   \<and> fst (handle_new_message cfg_on hello (at_time 7200 ''2024-01-01'' True)
            restarted_daily_unsaved) = Relayed
   \<and> today daily_unsaved = today (at_time 7200 ''2024-01-01'' True)"
proof -
  have a: "waiting two_waiting = [(john, False), (john, False)]"
    by (simp add: two_waiting_def exec_def idle_def handle_checks_def example_simps)
  have b: "waiting first_resumed = [(john, False)]"
    by (simp add: first_resumed_def a)
  have c: "fst (handle_resume cfg e john False st) = Relayed"
    if "resolve_ok e" "send_ok e" for cfg e st
    using that by (simp add: handle_resume_def forward_finish_def Let_def)
  have d: "fst (handle_new_message cfg_on hello (at_time 7200 ''2024-01-01'' True)
                  restarted_daily_unsaved) = Relayed"
    by (simp add: restarted_daily_unsaved_def daily_unsaved_def exec_def idle_def
          handle_checks_def handle_resume_def forward_finish_def init_def
          cleanup_old_tracking_data_def load_daily_messages_def load_message_tracking_def
          keep_recent_def example_simps)
  from a b d c [of "at_time 2 ''2024-01-01'' True"] c [of "at_time 3 ''2024-01-01'' True"]
    c [of daily_unsaved]
  show ?thesis
    by (simp add: at_time_def daily_unsaved_def)
qed

section \<open>Failed delivery\<close>





section \<open>Date change while the process runs\<close>

text \<open>
  Claim C2 describes a reset that \<open>mark_as_forwarded\<close> does not make. The function
  adds the sender to \<open>forwarded_today\<close> and keeps every other entry, whatever the
  date; the only comparison of dates is in \<open>load_daily_messages\<close>, at the start of the
  process.
\<close>

lemma mark_as_forwarded_keeps_entries:
  "forwarded_today (mark_as_forwarded cfg t d w u n st) =
     (forwarded_today st)(str u \<mapsto> \<lparr>de_name = n, de_time = strftime cfg t\<rparr>)"
  by (rule mark_daily)

text \<open>
  Claim C2 at an input where the code departs from it. \<open>john\<close> is delivered on
  1 January and the daily file is dated 1 January. The process keeps running, and on
  2 January a second sender is marked. The entry of \<open>john\<close> is still in
  \<open>forwarded_today\<close>, the file written on 2 January is dated 2 January and lists him,
  and \<open>has_forwarded_today\<close> still answers true for him.
\<close>

theorem mark_as_forwarded_carries_previous_date:
  "daily_on_disk ''2024-01-01'' ''42'' relayed_at_0
   \<and> forwarded_today relayed_at_0 ''42'' = Some \<lparr>de_name = ''John Doe'', de_time = []\<rparr>
   \<and> forwarded_today next_day_mark ''42'' = Some \<lparr>de_name = ''John Doe'', de_time = []\<rparr>
   \<and> forwarded_today next_day_mark ''7'' = Some \<lparr>de_name = ''Bob (@bob12)'', de_time = []\<rparr>
   \<and> daily_on_disk ''2024-01-02'' ''42'' next_day_mark
   \<and> has_forwarded_today 42 next_day_mark"
proof -
  have "daily_on_disk ''2024-01-01'' ''42'' relayed_at_0"
    by (simp add: daily_on_disk_def relayed_at_0_def example_simps)
  moreover have "forwarded_today next_day_mark ''42''
                   = Some \<lparr>de_name = ''John Doe'', de_time = []\<rparr>"
    and "forwarded_today next_day_mark ''7''
           = Some \<lparr>de_name = ''Bob (@bob12)'', de_time = []\<rparr>"
    and "daily_on_disk ''2024-01-02'' ''42'' next_day_mark"
    by (simp_all add: next_day_mark_def mark_daily str_7 relayed_at_0_facts cfg_on_def
          no_format_def daily_on_disk_def write_file_def dom_def)
  ultimately show ?thesis
    using relayed_at_0_facts(4) by (simp add: has_forwarded_today_def str_42 dom_def)
qed

section \<open>Exit code\<close>

text \<open>
  Whenever \<open>run_with_retry\<close> returns, \<open>main\<close> returns 0, whatever made the loop end.
  The exit code is 1 only when a credential or the bot name is not set, when building
  the forwarder raises, or when an exception leaves \<open>run_with_retry\<close>.
\<close>

lemma exit_code_1_iff:
  "exit_code start = Some 1 \<longleftrightarrow>
   \<not> arg_stats start
   \<and> (\<not> api_id_set start \<or> \<not> api_hash_set start \<or> \<not> bot_username_set start
      \<or> forwarder_raises start \<or> run_with_retry 0 (passes start) = Some Escaped)"
  by (auto simp: exit_code_def main_def split: option.splits sum.splits loop_end.splits)

text \<open>
  Claim C8 at two inputs where the code departs from it. When \<open>setup_client\<close> returns
  false on the first attempt, and when five passes in a row end in an exception so that
  \<open>retry_count\<close> reaches \<open>max_retries\<close>, the loop is left, \<open>main\<close> returns 0 and the
  exit code is 0.
\<close>

theorem fatal_outcomes_exit_0:
  "run_with_retry 0 (passes setup_failure) = Some (Returned 0)
   \<and> exit_code setup_failure = Some 0
   \<and> run_with_retry 0 (passes retries_exhausted) = Some (Returned max_retries)
   \<and> exit_code retries_exhausted = Some 0"
  by (simp add: exit_code_def main_def setup_failure_def retries_exhausted_def
        max_retries_def)

end
